theory Spec2Isabelle
  imports Main "HOL-Library.Sublist" "HOL-Library.AList" "HOL-Library.Word"
begin

section \<open>String primitives of the Python source\<close>

text \<open>
  Python strings are modelled as \<open>string\<close> (a list of 8-bit characters). \<open>str.lower\<close> is
  modelled on the ASCII letters, the only ones the markers and extensions of the source
  mention; every other character is left as it is.
\<close>

definition lower_char :: "char \<Rightarrow> char" where
  "lower_char c =
     (let n = (of_char c :: nat) in if 65 \<le> n \<and> n \<le> 90 then char_of (n + 32) else c)"

definition lower :: "string \<Rightarrow> string" where
  "lower s = map lower_char s"

definition startswith :: "string \<Rightarrow> string \<Rightarrow> bool" where
  "startswith s p = prefix p s"

definition endswith :: "string \<Rightarrow> string \<Rightarrow> bool" where
  "endswith s p = prefix (rev p) (rev s)"

text \<open>The substring test \<open>sub in s\<close>.\<close>

fun py_in :: "string \<Rightarrow> string \<Rightarrow> bool" where
  "py_in sub [] = (sub = [])"
| "py_in sub (c # cs) = (prefix sub (c # cs) \<or> py_in sub cs)"

text \<open>\<open>os.path.basename\<close> on a POSIX path: what follows the last slash.\<close>

definition basename :: "string \<Rightarrow> string" where
  "basename p = rev (takeWhile (\<lambda>c. c \<noteq> CHR ''/'') (rev p))"

text \<open>
  \<open>os.path.splitext(p)[0]\<close> for a name without a separator: the part before the last dot,
  unless every character before that dot is a dot itself (then the whole name).
\<close>

definition splitext_root :: "string \<Rightarrow> string" where
  "splitext_root p =
     (let root = rev (drop 1 (dropWhile (\<lambda>c. c \<noteq> CHR ''.'') (rev p)))
      in if CHR ''.'' \<in> set p \<and> list_ex (\<lambda>c. c \<noteq> CHR ''.'') root then root else p)"

text \<open>\<open>s.split(c)\<close> with a one-character separator.\<close>

fun split_sep :: "char \<Rightarrow> string \<Rightarrow> string list" where
  "split_sep c [] = [[]]"
| "split_sep c (x # xs) =
     (if x = c then [] # split_sep c xs
      else (case split_sep c xs of [] \<Rightarrow> [[x]] | p # ps \<Rightarrow> (x # p) # ps))"

section \<open>The file classifier\<close>

definition JUNK_NAMES :: "string list" where
  "JUNK_NAMES =
     [''._'', ''.ds_store'', ''.spotlight-v100'', ''.trashes'', ''.fseventsd'',
      ''.temporaryitems'', ''.appledouble'', ''__macosx'', ''thumbs.db'', ''desktop.ini'',
      ''iconcache.db'', ''~$'', ''.bak'', ''.lnk'']"

definition is_junk_file :: "string \<Rightarrow> bool" where
  "is_junk_file filename =
     (if filename = [] then True
      else let base_name = basename filename in
        if base_name = [] then True
        else let lower_name = lower base_name in
          if list_ex (\<lambda>j. py_in j lower_name) JUNK_NAMES \<or> startswith base_name ''.''
             \<or> endswith base_name ''~'' then True
          else if py_in ''.Trash-'' filename \<or> py_in ''/tmp/'' filename then True
          else if (endswith lower_name ''.swp'' \<or> endswith lower_name ''.swo''
                   \<or> endswith lower_name ''.log'') \<or> py_in ''cache'' lower_name then True
          else False)"

definition is_valid_pdf :: "string \<Rightarrow> nat \<Rightarrow> bool" where
  "is_valid_pdf filename file_size = (endswith (lower filename) ''.pdf'' \<and> file_size \<ge> 1024)"

definition is_valid_excel :: "string \<Rightarrow> nat \<Rightarrow> bool" where
  "is_valid_excel filename file_size =
     (let lower_name = lower filename
      in (endswith lower_name ''.xlsx'' \<or> endswith lower_name ''.xls'') \<and> file_size \<ge> 2048)"

section \<open>Values, documents and the external collaborators\<close>

text \<open>
  The values the handler stores in documents and sends as payloads. A document is an
  association list from field names to values, as a Python dict literal is.
\<close>

datatype val = VNull | VStr string | VInt int | VBool bool | VList "val list"
  | VDoc "(string \<times> val) list"

type_synonym doc = "(string \<times> val) list"

type_synonym bytes = "8 word list"

text \<open>A Python variable that holds a string or \<open>None\<close>, as a stored value.\<close>

definition oval :: "string option \<Rightarrow> val" where
  "oval x = (case x of None \<Rightarrow> VNull | Some s \<Rightarrow> VStr s)"

text \<open>
  The opened archive, as the handler sees it: \<open>namelist()\<close> and \<open>read(name)\<close>, which
  returns the bytes of the entry or raises (\<open>Inl\<close> carries the text of the exception).
\<close>

record zip_archive =
  namelist :: "string list"
  zread :: "string \<Rightarrow> string + bytes"

text \<open>
  The response of the validation function: the fields of the decoded payload the invoker
  looks at. A field is \<open>None\<close> when the key is absent and \<open>Some None\<close> when its value is
  null. \<open>lambda_client.invoke\<close> raises, or it returns the transport's \<open>StatusCode\<close> and the
  payload. An exception while reading or decoding the payload is raised in the same \<open>try\<close>
  block and is a \<open>Raised\<close> outcome.
\<close>

record payload =
  statusCode :: "int option option"
  error_field :: "string option option"
  errorMessage :: "string option option"

datatype invoke_outcome = Raised string | Responded "int option" payload

text \<open>
  Every call the handler makes on the document store, the blob store and the function
  service, in the order it makes them. Every upload of the source passes
  \<open>ServerSideEncryption = AES256\<close>; the constant is left out of \<open>S3Put\<close>.
\<close>

datatype effect =
    DbUpsert val doc
  | DbSet val doc
  | S3Get "string option" "string option"
  | S3Put "string option" string bytes "string option"
  | S3Delete "string option" "string option"
  | Invoke string val

text \<open>
  The state outside the handler: the collection \<open>processing_jobs\<close>, the objects of the blob
  store, the calls made so far and the number of times the clock has been read. The
  collection is written by this handler only.
\<close>

record world =
  jobs :: "doc list"
  objects :: "string option \<times> string option \<Rightarrow> bytes option"
  trace :: "effect list"
  clock :: nat

text \<open>
  What the handler does not decide: the clock, the generated identifier, the URL decoder,
  what the blob store answers, whether a call on the document store raises (\<open>db_error\<close>
  gives the text of the exception, by the number of calls made before), how an archive
  opens, what the validation function answers, and the two configuration variables.
\<close>

record env =
  ist_clock :: "nat \<Rightarrow> int"
  uuid4 :: string
  unquote_plus :: "string \<Rightarrow> string"
  s3_get :: "string option \<Rightarrow> string option \<Rightarrow> string + bytes"
  s3_put_error :: "string option \<Rightarrow> string \<Rightarrow> string option"
  s3_delete_error :: "string option \<Rightarrow> string option \<Rightarrow> string option"
  db_error :: "nat \<Rightarrow> string option"
  open_zip :: "bytes \<Rightarrow> string + zip_archive"
  lambda_invoke :: "string \<Rightarrow> val \<Rightarrow> invoke_outcome"
  VALIDATE_LAMBDA_NAME :: string
  DELETE_ZIP_AFTER_SUCCESS :: bool

definition get_ist_millis :: "env \<Rightarrow> world \<Rightarrow> int \<times> world" where
  "get_ist_millis e w = (ist_clock e (clock w), w\<lparr>clock := Suc (clock w)\<rparr>)"

subsection \<open>The document store\<close>

text \<open>
  The filter \<open>{"jobId": j}\<close>: a document matches when its \<open>jobId\<close> equals \<open>j\<close>; the filter
  on null also matches a document without the field.
\<close>

definition filter_matches :: "val \<Rightarrow> doc \<Rightarrow> bool" where
  "filter_matches j d = (case map_of d ''jobId'' of None \<Rightarrow> j = VNull | Some v \<Rightarrow> v = j)"

fun update_first :: "(doc \<Rightarrow> bool) \<Rightarrow> (doc \<Rightarrow> doc) \<Rightarrow> doc list \<Rightarrow> doc list" where
  "update_first P f [] = []"
| "update_first P f (d # ds) = (if P d then f d # ds else d # update_first P f ds)"

definition set_fields :: "doc \<Rightarrow> doc \<Rightarrow> doc" where
  "set_fields fs d = fold (\<lambda>kv. AList.update (fst kv) (snd kv)) fs d"

text \<open>
  \<open>update_one(filter, {"$set": fs})\<close>: the call raises, or the first matching document
  gets the fields.
\<close>

definition update_one_set :: "env \<Rightarrow> val \<Rightarrow> doc \<Rightarrow> world \<Rightarrow> (string + unit) \<times> world" where
  "update_one_set e j fs w =
     (let w1 = w\<lparr>trace := trace w @ [DbSet j fs]\<rparr>
      in case db_error e (length (trace w)) of
           Some err \<Rightarrow> (Inl err, w1)
         | None \<Rightarrow>
             (Inr (), w1\<lparr>jobs := update_first (filter_matches j) (set_fields fs) (jobs w)\<rparr>))"

text \<open>
  \<open>update_one(filter, {"$setOnInsert": fs}, upsert=True)\<close>: the call raises, or a matching
  document is left as it is, or, without one, a document with the filter's field and \<open>fs\<close>
  is inserted.
\<close>

definition update_one_upsert :: "env \<Rightarrow> val \<Rightarrow> doc \<Rightarrow> world \<Rightarrow> (string + unit) \<times> world" where
  "update_one_upsert e j fs w =
     (let w1 = w\<lparr>trace := trace w @ [DbUpsert j fs]\<rparr>
      in case db_error e (length (trace w)) of
           Some err \<Rightarrow> (Inl err, w1)
         | None \<Rightarrow>
             (Inr (), w1\<lparr>jobs := (if list_ex (filter_matches j) (jobs w) then jobs w
                                   else jobs w @ [(''jobId'', j) # fs])\<rparr>))"

definition find_job :: "val \<Rightarrow> doc list \<Rightarrow> doc option" where
  "find_job j ds = List.find (filter_matches j) ds"

subsection \<open>The blob store\<close>

definition get_object :: "env \<Rightarrow> string option \<Rightarrow> string option \<Rightarrow> world \<Rightarrow> (string + bytes) \<times> world" where
  "get_object e b k w = (s3_get e b k, w\<lparr>trace := trace w @ [S3Get b k]\<rparr>)"

definition put_object ::
  "env \<Rightarrow> string option \<Rightarrow> string \<Rightarrow> bytes \<Rightarrow> string option \<Rightarrow> world \<Rightarrow> (string + unit) \<times> world" where
  "put_object e b k body ctype w =
     (let w1 = w\<lparr>trace := trace w @ [S3Put b k body ctype]\<rparr>
      in case s3_put_error e b k of
           Some err \<Rightarrow> (Inl err, w1)
         | None \<Rightarrow> (Inr (), w1\<lparr>objects := (objects w1)((b, Some k) := Some body)\<rparr>))"

section \<open>Event normalisation\<close>

text \<open>
  The trigger. A storage notification carries \<open>Records\<close>; for a record, the lookups
  \<open>record['s3']['bucket']['name']\<close> and \<open>record['s3']['object']['key']\<close> raise (\<open>Inl\<close>, with
  the text of the exception) or give the bucket name and the object key. A direct
  invocation carries flat fields: \<open>None\<close> is an absent key, \<open>Some None\<close> a key whose value
  is null.
\<close>

record s3_event_record =
  eventSource :: "string option"
  s3_location :: "string + string \<times> string"

record event =
  Records :: "s3_event_record list option"
  ev_jobId :: "string option option"
  ev_s3Key :: "string option option"
  ev_s3Bucket :: "string option option"
  ev_bucket :: "string option option"
  ev_examCode :: "string option option"
  ev_courseCode :: "string option option"
  ev_uploadedBy :: "string option option"

record job_descriptor =
  jobId :: "string option"
  s3Bucket :: "string option"
  s3Key :: "string option"
  examCode :: "string option"
  courseCode :: "string option"
  uploadedBy :: "string option"
  source :: string

text \<open>\<open>d.get(k, default)\<close> and \<open>d.get(k)\<close> on a field that may be absent.\<close>

definition get_default :: "'a option \<Rightarrow> 'a \<Rightarrow> 'a" where
  "get_default x d = (case x of None \<Rightarrow> d | Some v \<Rightarrow> v)"

definition get_field :: "'a option option \<Rightarrow> 'a option" where
  "get_field x = get_default x None"

text \<open>The text of a value in a formatted string: \<open>None\<close> prints as its name.\<close>

definition py_str :: "string option \<Rightarrow> string" where
  "py_str x = (case x of None \<Rightarrow> ''None'' | Some t \<Rightarrow> t)"

text \<open>\<open>a or b\<close> on strings that may be \<open>None\<close>: \<open>a\<close> unless it is \<open>None\<close> or empty.\<close>

definition py_or :: "string option \<Rightarrow> string option \<Rightarrow> string option" where
  "py_or a b = (case a of None \<Rightarrow> b | Some s \<Rightarrow> if s = [] then b else Some s)"

definition exam_course :: "string \<Rightarrow> string \<times> string" where
  "exam_course k =
     (if startswith k ''Answer_Scripts_Zip_Files/'' then
        let path = drop (length ''Answer_Scripts_Zip_Files/'') k;
            parts = split_sep CHR ''/'' path
        in if length parts \<ge> 3 then (parts ! 0, parts ! 1) else (''UNKNOWN'', ''UNKNOWN'')
      else (''UNKNOWN'', ''UNKNOWN''))"

text \<open>
  \<open>parse_event\<close> raises (\<open>Inl\<close>), returns a descriptor, or falls off its first branch and
  returns \<open>None\<close> (a first record that is not of the blob store).
\<close>

definition parse_event :: "env \<Rightarrow> event \<Rightarrow> string + job_descriptor option" where
  "parse_event e ev =
     (case Records ev of
        Some (r # rs) \<Rightarrow>
          if eventSource r = Some ''aws:s3'' then
            (case s3_location r of
               Inl err \<Rightarrow> Inl err
             | Inr (b, raw_key) \<Rightarrow>
                 let k = unquote_plus e raw_key;
                     ec = exam_course k
                 in Inr (Some \<lparr>jobId = Some (''JOB-'' @ uuid4 e), s3Bucket = Some b,
                              s3Key = Some k, examCode = Some (fst ec), courseCode = Some (snd ec),
                              uploadedBy = Some ''S3_AUTO_TRIGGER'', source = ''S3_EVENT''\<rparr>))
          else Inr None
      | _ \<Rightarrow>
          if ev_jobId ev \<noteq> None \<or> ev_s3Key ev \<noteq> None then
            Inr (Some \<lparr>jobId = get_field (ev_jobId ev),
                       s3Bucket = py_or (get_field (ev_s3Bucket ev)) (get_field (ev_bucket ev)),
                       s3Key = get_field (ev_s3Key ev),
                       examCode = get_default (ev_examCode ev) (Some ''UNKNOWN''),
                       courseCode = get_default (ev_courseCode ev) (Some ''UNKNOWN''),
                       uploadedBy = get_default (ev_uploadedBy ev) (Some ''BACKEND''),
                       source = ''DIRECT_INVOCATION''\<rparr>)
          else Inl ''Invalid event format'')"

section \<open>The validation call and the archive deletion\<close>

text \<open>
  The result of the invoker: success with the payload, or failure with the captured error,
  which is \<open>None\<close> when the callee's \<open>errorMessage\<close> or \<open>error\<close> is null.
\<close>

datatype l2_result = L2Success payload | L2Failure "string option"

definition invoke_lambda2_sync :: "env \<Rightarrow> val \<Rightarrow> world \<Rightarrow> l2_result \<times> world" where
  "invoke_lambda2_sync e pl w =
     (let w1 = w\<lparr>trace := trace w @ [Invoke (VALIDATE_LAMBDA_NAME e) pl]\<rparr>
      in case lambda_invoke e (VALIDATE_LAMBDA_NAME e) pl of
           Raised err \<Rightarrow> (L2Failure (Some err), w1)
         | Responded sc response_payload \<Rightarrow>
             let status_code = get_default sc 0
             in case errorMessage response_payload of
                  Some m \<Rightarrow> (L2Failure m, w1)
                | None \<Rightarrow>
                    if get_default (statusCode response_payload) (Some status_code) = Some 200
                    then (L2Success response_payload, w1)
                    else (L2Failure (get_default (error_field response_payload)
                                       (Some ''Unknown error'')), w1))"

text \<open>
  The deletion of the archive. Its \<open>try\<close> block covers the deletion and the update of the
  record; either exception makes it return \<open>False\<close>.
\<close>

definition delete_zip_file ::
  "env \<Rightarrow> string option \<Rightarrow> string option \<Rightarrow> string option \<Rightarrow> world \<Rightarrow> bool \<times> world" where
  "delete_zip_file e b k j w =
     (let w1 = w\<lparr>trace := trace w @ [S3Delete b k]\<rparr>
      in case s3_delete_error e b k of
           Some err \<Rightarrow> (False, w1)
         | None \<Rightarrow>
             let w2 = w1\<lparr>objects := (objects w1)((b, k) := None)\<rparr>;
                 (now, w3) = get_ist_millis e w2
             in case update_one_set e (oval j)
                       [(''originalZipDeleted'', VBool True),
                        (''zipDeletedAt_KJUSYSCommon_DateTime'', VInt now)] w3 of
                  (Inl err, w4) \<Rightarrow> (False, w4)
                | (Inr u, w4) \<Rightarrow> (True, w4))"

section \<open>The extraction loop\<close>

text \<open>The local variables of the handler that the loop reads, and those it updates.\<close>

record frame =
  job_id :: "string option"
  bucket :: "string option"
  unzip_prefix :: string
  total_entries :: nat
  zip_file :: zip_archive

record acc =
  pdf_files :: "val list"
  excel_file :: "val option"
  other_files :: "val list"
  skipped_files :: "val list"
  valid_files_processed :: nat

definition skip_record :: "string \<Rightarrow> string \<Rightarrow> val" where
  "skip_record name reason = VDoc [(''fileName'', VStr name), (''reason'', VStr reason)]"

definition skipped :: "acc \<Rightarrow> string \<Rightarrow> string \<Rightarrow> acc" where
  "skipped a name reason = a\<lparr>skipped_files := skipped_files a @ [skip_record name reason]\<rparr>"

definition pdf_item :: "frame \<Rightarrow> string \<Rightarrow> nat \<Rightarrow> val" where
  "pdf_item fr base_name file_size =
     VDoc [(''s3Key'', VStr (unzip_prefix fr @ base_name)), (''fileName'', VStr base_name),
           (''uniqueCode'', VStr (splitext_root base_name)), (''fileSize'', VInt (int file_size)),
           (''s3Bucket'', oval (bucket fr))]"

definition excel_item :: "frame \<Rightarrow> string \<Rightarrow> nat \<Rightarrow> val" where
  "excel_item fr base_name file_size =
     VDoc [(''s3Key'', VStr (unzip_prefix fr @ base_name)), (''fileName'', VStr base_name),
           (''fileSize'', VInt (int file_size)), (''s3Bucket'', oval (bucket fr))]"

definition other_item :: "frame \<Rightarrow> string \<Rightarrow> nat \<Rightarrow> val" where
  "other_item fr base_name file_size =
     VDoc [(''s3Key'', VStr (unzip_prefix fr @ base_name)), (''fileName'', VStr base_name),
           (''fileSize'', VInt (int file_size))]"

text \<open>
  The progress update that ends the loop body. The source computes
  \<open>10 + int((idx + 1) / total_entries * 30)\<close> in floating point; the model computes the
  quotient exactly. Division by zero raises, and so may the update.
\<close>

definition checkpoint :: "env \<Rightarrow> frame \<Rightarrow> nat \<Rightarrow> acc \<Rightarrow> world \<Rightarrow> (string + acc) \<times> world" where
  "checkpoint e fr idx a w =
     (if (idx + 1) mod 10 = 0 then
        let (now, w1) = get_ist_millis e w
        in if total_entries fr = 0 then (Inl ''division by zero'', w1)
           else let progress = 10 + int ((idx + 1) * 30 div total_entries fr)
                in case update_one_set e (oval (job_id fr))
                          [(''progress'', VInt progress),
                           (''updatedOn_KJUSYSCommon_DateTime'', VInt now)] w1 of
                     (Inl err, w2) \<Rightarrow> (Inl err, w2)
                   | (Inr u, w2) \<Rightarrow> (Inr a, w2)
      else (Inr a, w))"

text \<open>
  One iteration of the loop over \<open>enumerate(file_list)\<close>. Every \<open>continue\<close> of the source
  returns without reaching the progress update.
\<close>

definition process_entry ::
  "env \<Rightarrow> frame \<Rightarrow> nat \<Rightarrow> string \<Rightarrow> acc \<Rightarrow> world \<Rightarrow> (string + acc) \<times> world" where
  "process_entry e fr idx file_name a w =
     (if endswith file_name ''/'' then (Inr a, w)
      else if is_junk_file file_name then (Inr (skipped a file_name ''Junk''), w)
      else case zread (zip_file fr) file_name of
        Inl err \<Rightarrow> (Inr (skipped a file_name err), w)
      | Inr file_data \<Rightarrow>
          let base_name = basename file_name;
              file_size = length file_data
          in if file_size = 0 then (Inr (skipped a base_name ''Empty''), w)
             else
               let dest_key = unzip_prefix fr @ base_name;
                   lower_name = lower base_name
               in if endswith lower_name ''.pdf'' then
                    (if \<not> is_valid_pdf base_name file_size
                     then (Inr (skipped a base_name ''Too small''), w)
                     else case put_object e (bucket fr) dest_key file_data
                                 (Some ''application/pdf'') w of
                            (Inl err, w1) \<Rightarrow> (Inl err, w1)
                          | (Inr u, w1) \<Rightarrow>
                              checkpoint e fr idx
                                (a\<lparr>pdf_files := pdf_files a @ [pdf_item fr base_name file_size],
                                   valid_files_processed := valid_files_processed a + 1\<rparr>) w1)
                  else if endswith lower_name ''.xlsx'' \<or> endswith lower_name ''.xls'' then
                    (if \<not> is_valid_excel base_name file_size
                     then (Inr (skipped a base_name ''Too small''), w)
                     else case put_object e (bucket fr) dest_key file_data
                                 (Some ''application/vnd.openxmlformats-officedocument.spreadsheetml.sheet'') w of
                            (Inl err, w1) \<Rightarrow> (Inl err, w1)
                          | (Inr u, w1) \<Rightarrow>
                              checkpoint e fr idx
                                (if excel_file a = None
                                 then a\<lparr>excel_file := Some (excel_item fr base_name file_size),
                                        valid_files_processed := valid_files_processed a + 1\<rparr>
                                 else skipped a base_name ''Duplicate'') w1)
                  else
                    (case put_object e (bucket fr) dest_key file_data None w of
                       (Inl err, w1) \<Rightarrow> (Inl err, w1)
                     | (Inr u, w1) \<Rightarrow>
                         checkpoint e fr idx
                           (a\<lparr>other_files := other_files a @ [other_item fr base_name file_size],
                              valid_files_processed := valid_files_processed a + 1\<rparr>) w1))"

fun extract_loop ::
  "env \<Rightarrow> frame \<Rightarrow> nat \<Rightarrow> string list \<Rightarrow> acc \<Rightarrow> world \<Rightarrow> (string + acc) \<times> world" where
  "extract_loop e fr idx [] a w = (Inr a, w)"
| "extract_loop e fr idx (file_name # rest) a w =
     (case process_entry e fr idx file_name a w of
        (Inl err, w1) \<Rightarrow> (Inl err, w1)
      | (Inr a1, w1) \<Rightarrow> extract_loop e fr (Suc idx) rest a1 w1)"

definition init_acc :: acc where
  "init_acc = \<lparr>pdf_files = [], excel_file = None, other_files = [], skipped_files = [],
               valid_files_processed = 0\<rparr>"

section \<open>The handler\<close>

record result =
  res_statusCode :: int
  res_jobId :: "string option"
  res_status :: string
  res_error :: "string option"

text \<open>Step 1: \<open>parse_event\<close>, then \<open>parsed['jobId']\<close>, which raises on \<open>None\<close>.\<close>

definition parse_step :: "env \<Rightarrow> event \<Rightarrow> string + job_descriptor" where
  "parse_step e ev =
     (case parse_event e ev of
        Inl err \<Rightarrow> Inl err
      | Inr None \<Rightarrow> Inl (CHR 0x27 # ''NoneType'' @ CHR 0x27 # '' object is not subscriptable'')
      | Inr (Some d) \<Rightarrow> Inr d)"

text \<open>Steps 2 and 3: the record is created if absent, then marked as unzipping.\<close>

definition start_job :: "env \<Rightarrow> job_descriptor \<Rightarrow> world \<Rightarrow> (string + unit) \<times> world" where
  "start_job e d w =
     (let (now, w1) = get_ist_millis e w
      in case update_one_upsert e (oval (jobId d))
                [(''createdOn_KJUSYSCommon_DateTime'', VInt now),
                 (''type'', VStr ''ANSWER_SCRIPT_PROCESSING''),
                 (''examCode_Examination_Text'', oval (examCode d)),
                 (''courseCode_Examination_Text'', oval (courseCode d)),
                 (''uploadedBy'', oval (uploadedBy d)),
                 (''eventSource'', VStr (source d)),
                 (''status'', VStr ''PENDING''),
                 (''progress'', VInt 0)] w1 of
           (Inl err, w2) \<Rightarrow> (Inl err, w2)
         | (Inr u, w2) \<Rightarrow>
             update_one_set e (oval (jobId d))
               [(''status'', VStr ''UNZIPPING''),
                (''currentStep'', VStr ''Extracting files''),
                (''progress'', VInt 10),
                (''s3Bucket'', oval (s3Bucket d)),
                (''s3Key'', oval (s3Key d)),
                (''updatedOn_KJUSYSCommon_DateTime'', VInt now)] w2)"

definition make_frame :: "job_descriptor \<Rightarrow> zip_archive \<Rightarrow> frame" where
  "make_frame d zf =
     \<lparr>job_id = jobId d, bucket = s3Bucket d,
      unzip_prefix = ''Answer_Scripts_Zip_Files/'' @ py_str (examCode d) @ ''/''
                       @ py_str (courseCode d) @ ''/unzipped/'',
      total_entries = length (namelist zf), zip_file = zf\<rparr>"

text \<open>
  Steps 4 to 6: the archive is fetched and opened, the loop runs, and a spreadsheet and a
  PDF must have been found, the spreadsheet being checked first.
\<close>

definition extraction :: "env \<Rightarrow> job_descriptor \<Rightarrow> world \<Rightarrow> (string + frame \<times> acc) \<times> world" where
  "extraction e d w =
     (case get_object e (s3Bucket d) (s3Key d) w of
        (Inl err, w1) \<Rightarrow> (Inl err, w1)
      | (Inr zip_bytes, w1) \<Rightarrow>
          (case open_zip e zip_bytes of
             Inl err \<Rightarrow> (Inl err, w1)
           | Inr zf \<Rightarrow>
               let fr = make_frame d zf
               in case extract_loop e fr 0 (namelist zf) init_acc w1 of
                    (Inl err, w2) \<Rightarrow> (Inl err, w2)
                  | (Inr a, w2) \<Rightarrow>
                      if excel_file a = None then (Inl ''No Excel file found'', w2)
                      else if length (pdf_files a) = 0 then (Inl ''No PDF files found'', w2)
                      else (Inr (fr, a), w2)))"

text \<open>
  Steps 6 (the update) to 9: the manifests are stored, validation is called. Each update
  of the record may raise.
\<close>

definition validate_and_complete ::
  "env \<Rightarrow> job_descriptor \<Rightarrow> frame \<Rightarrow> acc \<Rightarrow> world \<Rightarrow> (string + result) \<times> world" where
  "validate_and_complete e d fr a w =
     (let (now, w1) = get_ist_millis e w
      in case update_one_set e (oval (jobId d))
                [(''progress'', VInt 40),
                 (''status'', VStr ''UNZIPPED''),
                 (''currentStep'', VStr ''Starting validation''),
                 (''updatedOn_KJUSYSCommon_DateTime'', VInt now),
                 (''totalFiles'', VInt (int (total_entries fr))),
                 (''validFilesProcessed'', VInt (int (valid_files_processed a))),
                 (''totalPDFs'', VInt (int (length (pdf_files a)))),
                 (''pdfFiles'', VList (pdf_files a)),
                 (''excelFile'', (case excel_file a of None \<Rightarrow> VNull | Some x \<Rightarrow> x)),
                 (''unzipFolderPath'', VStr (unzip_prefix fr))] w1 of
           (Inl err, w2) \<Rightarrow> (Inl err, w2)
         | (Inr u, w2) \<Rightarrow>
             let (lambda2_result, w3) =
                   invoke_lambda2_sync e (VDoc [(''jobId'', oval (jobId d))]) w2
             in case lambda2_result of
                  L2Failure error_msg \<Rightarrow>
                    let (now2, w4) = get_ist_millis e w3
                    in (case update_one_set e (oval (jobId d))
                               [(''status'', VStr ''VALIDATION_FAILED''),
                                (''error'', VStr (''Validation failed: '' @ py_str error_msg)),
                                (''updatedOn_KJUSYSCommon_DateTime'', VInt now2)] w4 of
                          (Inl err, w5) \<Rightarrow> (Inl err, w5)
                        | (Inr u2, w5) \<Rightarrow> (Inl (''Lambda 2 failed: '' @ py_str error_msg), w5))
                | L2Success response \<Rightarrow>
                    let w4 = (if DELETE_ZIP_AFTER_SUCCESS e
                              then snd (delete_zip_file e (s3Bucket d) (s3Key d) (jobId d) w3)
                              else w3);
                        (now3, w5) = get_ist_millis e w4
                    in (case update_one_set e (oval (jobId d))
                               [(''status'', VStr ''COMPLETED''),
                                (''updatedOn_KJUSYSCommon_DateTime'', VInt now3)] w5 of
                          (Inl err, w6) \<Rightarrow> (Inl err, w6)
                        | (Inr u3, w6) \<Rightarrow>
                            (Inr \<lparr>res_statusCode = 200, res_jobId = jobId d,
                                  res_status = ''SUCCESS'', res_error = None\<rparr>, w6)))"

text \<open>
  The \<open>except\<close> clause: the record is marked as failed and a result is returned. The
  update is not guarded: when it raises, the exception leaves the handler (\<open>Inl\<close>) and
  no result is returned.
\<close>

definition failure_boundary ::
  "env \<Rightarrow> string option \<Rightarrow> string \<Rightarrow> world \<Rightarrow> (string + result) \<times> world" where
  "failure_boundary e j err w =
     (let (now, w1) = get_ist_millis e w
      in case update_one_set e (oval j)
                [(''status'', VStr ''FAILED''),
                 (''error'', VStr err),
                 (''updatedOn_KJUSYSCommon_DateTime'', VInt now)] w1 of
           (Inl err2, w2) \<Rightarrow> (Inl err2, w2)
         | (Inr u, w2) \<Rightarrow>
             (Inr \<lparr>res_statusCode = 500, res_jobId = j, res_status = ''FAILED'',
                   res_error = Some err\<rparr>, w2))"

text \<open>The body of the \<open>try\<close> block after step 1.\<close>

definition handler_body :: "env \<Rightarrow> job_descriptor \<Rightarrow> world \<Rightarrow> (string + result) \<times> world" where
  "handler_body e d w =
     (case start_job e d w of
        (Inl err, w0) \<Rightarrow> (Inl err, w0)
      | (Inr u, w0) \<Rightarrow>
          (case extraction e d w0 of
             (Inl err, w1) \<Rightarrow> (Inl err, w1)
           | (Inr (fr, a), w1) \<Rightarrow> validate_and_complete e d fr a w1))"

text \<open>
  The whole handler: it returns a result (\<open>Inr\<close>) or raises (\<open>Inl\<close>). The local \<open>job_id\<close>
  is \<open>None\<close> until step 1 has assigned it, and the \<open>except\<close> clause covers step 1 as well.
\<close>

definition lambda_handler :: "env \<Rightarrow> event \<Rightarrow> world \<Rightarrow> (string + result) \<times> world" where
  "lambda_handler e ev w =
     (case parse_step e ev of
        Inl err \<Rightarrow> failure_boundary e None err w
      | Inr d \<Rightarrow>
          (case handler_body e d w of
             (Inl err, w1) \<Rightarrow> failure_boundary e (jobId d) err w1
           | (Inr r, w1) \<Rightarrow> (Inr r, w1)))"

section \<open>Notions used in the statements\<close>

text \<open>The progress values and the statuses that a sequence of calls writes, in order.\<close>

fun written :: "string \<Rightarrow> effect \<Rightarrow> val option" where
  "written k (DbUpsert j fs) = map_of fs k"
| "written k (DbSet j fs) = map_of fs k"
| "written k x = None"

fun progress_writes :: "effect list \<Rightarrow> int list" where
  "progress_writes [] = []"
| "progress_writes (x # xs) =
     (case written ''progress'' x of
        Some (VInt p) \<Rightarrow> p # progress_writes xs
      | _ \<Rightarrow> progress_writes xs)"

fun status_writes :: "effect list \<Rightarrow> string list" where
  "status_writes [] = []"
| "status_writes (x # xs) =
     (case written ''status'' x of
        Some (VStr s) \<Rightarrow> s # status_writes xs
      | _ \<Rightarrow> status_writes xs)"

text \<open>The effects a loop iteration can have: an upload, or a progress update.\<close>

fun loop_effect :: "frame \<Rightarrow> effect \<Rightarrow> bool" where
  "loop_effect fr (S3Put b k body ct) = (b = bucket fr)"
| "loop_effect fr (DbSet j fs) =
     (j = oval (job_id fr) \<and>
      (\<exists>p t. fs = [(''progress'', VInt p), (''updatedOn_KJUSYSCommon_DateTime'', VInt t)]
             \<and> 10 \<le> p \<and> p \<le> 40))"
| "loop_effect fr x = False"

text \<open>The progress update of the iteration with index \<open>idx\<close>, and what one iteration calls.\<close>

definition checkpoint_write :: "frame \<Rightarrow> nat \<Rightarrow> int \<Rightarrow> effect" where
  "checkpoint_write fr idx t =
     DbSet (oval (job_id fr))
       [(''progress'', VInt (10 + int ((idx + 1) * 30 div total_entries fr))),
        (''updatedOn_KJUSYSCommon_DateTime'', VInt t)]"

definition entry_ops :: "frame \<Rightarrow> nat \<Rightarrow> effect list \<Rightarrow> bool" where
  "entry_ops fr idx ops =
     (ops = [] \<or>
      (\<exists>k body ct. ops = [S3Put (bucket fr) k body ct] \<or>
         (\<exists>t. (idx + 1) mod 10 = 0 \<and>
               ops = [S3Put (bucket fr) k body ct, checkpoint_write fr idx t])))"

text \<open>The collection holds a document that the filter on \<open>j\<close> matches.\<close>

definition has_job :: "val \<Rightarrow> world \<Rightarrow> bool" where
  "has_job j w = list_ex (filter_matches j) (jobs w)"

text \<open>
  A document store that does not raise, and the world after an update that the store has
  accepted.
\<close>

definition store_ok :: "env \<Rightarrow> bool" where
  "store_ok e = (\<forall>n. db_error e n = None)"

definition stored_set :: "val \<Rightarrow> doc \<Rightarrow> world \<Rightarrow> world" where
  "stored_set j fs w =
     w\<lparr>trace := trace w @ [DbSet j fs],
       jobs := update_first (filter_matches j) (set_fields fs) (jobs w)\<rparr>"

definition stored_upsert :: "val \<Rightarrow> doc \<Rightarrow> world \<Rightarrow> world" where
  "stored_upsert j fs w =
     w\<lparr>trace := trace w @ [DbUpsert j fs],
       jobs := (if list_ex (filter_matches j) (jobs w) then jobs w
                else jobs w @ [(''jobId'', j) # fs])\<rparr>"

text \<open>
  An update of the handler leaves the creation timestamp alone, and it sets the update
  timestamp unless it is the update that records the deletion of the archive.
\<close>

fun timestamps_ok :: "effect \<Rightarrow> bool" where
  "timestamps_ok (DbSet j fs) =
     (''createdOn_KJUSYSCommon_DateTime'' \<notin> fst ` set fs \<and>
      (''updatedOn_KJUSYSCommon_DateTime'' \<in> fst ` set fs \<or>
       map fst fs = [''originalZipDeleted'', ''zipDeletedAt_KJUSYSCommon_DateTime'']))"
| "timestamps_ok x = True"

text \<open>
  A call that writes a terminal status, and the property that no progress value is written
  after such a call.
\<close>

definition terminal_write :: "effect \<Rightarrow> bool" where
  "terminal_write x =
     (written ''status'' x = Some (VStr ''COMPLETED'') \<or> written ''status'' x = Some (VStr ''FAILED''))"

fun frozen_after_terminal :: "effect list \<Rightarrow> bool" where
  "frozen_after_terminal [] = True"
| "frozen_after_terminal (x # xs) =
     ((terminal_write x \<longrightarrow> progress_writes xs = []) \<and> frozen_after_terminal xs)"


text \<open>An update that sets the update timestamp (any other call counts as doing so).\<close>

fun sets_updated_on :: "effect \<Rightarrow> bool" where
  "sets_updated_on (DbSet j fs) = (''updatedOn_KJUSYSCommon_DateTime'' \<in> fst ` set fs)"
| "sets_updated_on x = True"


text \<open>
  The size of an entry, and the entries that reach the spreadsheet branch of the loop and
  pass its size test: not junk, readable, with the extension \<open>.xlsx\<close> or \<open>.xls\<close> and at
  least 2048 bytes. The record of a spreadsheet skipped as a duplicate.
\<close>

definition entry_size :: "zip_archive \<Rightarrow> string \<Rightarrow> nat" where
  "entry_size zf n = (case zread zf n of Inl err \<Rightarrow> 0 | Inr body \<Rightarrow> length body)"

definition qualifying_spreadsheet :: "zip_archive \<Rightarrow> string \<Rightarrow> bool" where
  "qualifying_spreadsheet zf n =
     (\<not> is_junk_file n \<and>
      (case zread zf n of
         Inl err \<Rightarrow> False
       | Inr body \<Rightarrow>
           (endswith (lower (basename n)) ''.xlsx'' \<or> endswith (lower (basename n)) ''.xls'')
           \<and> 2048 \<le> length body))"

definition duplicate_record :: "string \<Rightarrow> val" where
  "duplicate_record n = skip_record (basename n) ''Duplicate''"


text \<open>
  The entries that the loop accepts as PDFs: not junk, readable, with the extension
  \<open>.pdf\<close> and at least 1024 bytes. The destination key of a manifest item.
\<close>

definition accepted_pdf :: "zip_archive \<Rightarrow> string \<Rightarrow> bool" where
  "accepted_pdf zf n =
     (\<not> is_junk_file n \<and>
      (case zread zf n of
         Inl err \<Rightarrow> False
       | Inr body \<Rightarrow> endswith (lower (basename n)) ''.pdf'' \<and> 1024 \<le> length body))"

definition s3_key_of :: "val \<Rightarrow> val option" where
  "s3_key_of v = (case v of VDoc fs \<Rightarrow> map_of fs ''s3Key'' | _ \<Rightarrow> None)"


section \<open>Sample inputs\<close>

definition world0 :: world where
  "world0 = \<lparr>jobs = [], objects = (\<lambda>k. None), trace = [], clock = 0\<rparr>"

definition sample_env :: "zip_archive \<Rightarrow> invoke_outcome \<Rightarrow> env" where
  "sample_env zf out =
     \<lparr>ist_clock = (\<lambda>n. 1000 + int n), uuid4 = ''0000'', unquote_plus = (\<lambda>s. s),
      s3_get = (\<lambda>b k. Inr []), s3_put_error = (\<lambda>b k. None),
      s3_delete_error = (\<lambda>b k. None), db_error = (\<lambda>n. None), open_zip = (\<lambda>bs. Inr zf),
      lambda_invoke = (\<lambda>n p. out), VALIDATE_LAMBDA_NAME = ''ValidateExcelFunction'',
      DELETE_ZIP_AFTER_SUCCESS = True\<rparr>"

text \<open>The same collaborators with a document store that raises on every call.\<close>

definition broken_store_env :: "zip_archive \<Rightarrow> invoke_outcome \<Rightarrow> env" where
  "broken_store_env zf out = (sample_env zf out)\<lparr>db_error := (\<lambda>n. Some ''store unavailable'')\<rparr>"

definition empty_zip :: zip_archive where
  "empty_zip = \<lparr>namelist = [], zread = (\<lambda>n. Inl ''KeyError'')\<rparr>"

definition bad_header :: invoke_outcome where
  "bad_header = Responded (Some 200)
     \<lparr>statusCode = Some (Some 500), error_field = Some (Some ''bad header''),
      errorMessage = None\<rparr>"

definition validated :: invoke_outcome where
  "validated = Responded (Some 200)
     \<lparr>statusCode = Some (Some 200), error_field = None, errorMessage = None\<rparr>"

text \<open>A response with status 200 that also carries an \<open>error\<close> text.\<close>

definition ok_with_error :: invoke_outcome where
  "ok_with_error = Responded (Some 200)
     \<lparr>statusCode = Some (Some 200), error_field = Some (Some ''bad header''),
      errorMessage = None\<rparr>"

definition direct_event :: event where
  "direct_event =
     \<lparr>Records = None, ev_jobId = Some (Some ''J1''), ev_s3Key = Some (Some ''in/a.zip''),
      ev_s3Bucket = Some (Some ''b''), ev_bucket = None, ev_examCode = Some (Some ''E''),
      ev_courseCode = Some (Some ''C''), ev_uploadedBy = None\<rparr>"

definition empty_event :: event where
  "empty_event =
     \<lparr>Records = None, ev_jobId = None, ev_s3Key = None, ev_s3Bucket = None, ev_bucket = None,
      ev_examCode = None, ev_courseCode = None, ev_uploadedBy = None\<rparr>"

definition direct_descriptor :: job_descriptor where
  "direct_descriptor =
     \<lparr>jobId = Some ''J1'', s3Bucket = Some ''b'', s3Key = Some ''in/a.zip'',
      examCode = Some ''E'', courseCode = Some ''C'', uploadedBy = Some ''BACKEND'',
      source = ''DIRECT_INVOCATION''\<rparr>"

text \<open>
  An archive of ten entries: two PDFs of 1024 bytes, a spreadsheet of 2048 bytes and seven
  directory markers, the tenth entry being a PDF.
\<close>

definition ten_zip :: zip_archive where
  "ten_zip =
     \<lparr>namelist = [''a.pdf'', ''b.xlsx'', ''d1/'', ''d2/'', ''d3/'', ''d4/'', ''d5/'', ''d6/'', ''d7/'',
                  ''c.pdf''],
      zread = (\<lambda>n. if n = ''b.xlsx'' then Inr (replicate 2048 0) else Inr (replicate 1024 0))\<rparr>"


text \<open>An archive whose only entry is a PDF of 500 bytes.\<close>

definition tiny_zip :: zip_archive where
  "tiny_zip = \<lparr>namelist = [''tiny.pdf''], zread = (\<lambda>n. Inr (replicate 500 0))\<rparr>"


text \<open>An archive with two spreadsheets of 2048 bytes.\<close>

definition two_sheets_zip :: zip_archive where
  "two_sheets_zip =
     \<lparr>namelist = [''a.xlsx'', ''b.xlsx''], zread = (\<lambda>n. Inr (replicate 2048 0))\<rparr>"

text \<open>
  An archive of ten entries whose tenth entry is a metadata file of the desktop.
\<close>

definition junk_tenth_zip :: zip_archive where
  "junk_tenth_zip =
     \<lparr>namelist = [''a.pdf'', ''b.xlsx'', ''d1/'', ''d2/'', ''d3/'', ''d4/'', ''d5/'', ''d6/'', ''d7/'',
                  ''.DS_Store''],
      zread = (\<lambda>n. if n = ''b.xlsx'' then Inr (replicate 2048 0) else Inr (replicate 1024 0))\<rparr>"


text \<open>
  An archive with a spreadsheet and the resource fork that a desktop archiver stores beside
  it, both of 3000 bytes.
\<close>

definition junk_sheet_zip :: zip_archive where
  "junk_sheet_zip =
     \<lparr>namelist = [''marks.xlsx'', ''._marks.xlsx''], zread = (\<lambda>n. Inr (replicate 3000 0))\<rparr>"


text \<open>An archive with two PDFs of the same base name in two directories.\<close>

definition same_name_zip :: zip_archive where
  "same_name_zip =
     \<lparr>namelist = [''x/s.pdf'', ''y/s.pdf''],
      zread = (\<lambda>n. if n = ''x/s.pdf'' then Inr (replicate 1024 1) else Inr (replicate 1025 2))\<rparr>"


section \<open>Basic facts about the effects\<close>

lemma get_ist_millis_simps [simp]:
  "fst (get_ist_millis e w) = ist_clock e (clock w)"
  "snd (get_ist_millis e w) = w\<lparr>clock := Suc (clock w)\<rparr>"
  by (simp_all add: get_ist_millis_def)

lemma stored_set_simps [simp]:
  "trace (stored_set j fs w) = trace w @ [DbSet j fs]"
  "clock (stored_set j fs w) = clock w"
  "objects (stored_set j fs w) = objects w"
  "jobs (stored_set j fs w) = update_first (filter_matches j) (set_fields fs) (jobs w)"
  by (simp_all add: stored_set_def)

lemma stored_upsert_simps [simp]:
  "trace (stored_upsert j fs w) = trace w @ [DbUpsert j fs]"
  "clock (stored_upsert j fs w) = clock w"
  "objects (stored_upsert j fs w) = objects w"
  by (simp_all add: stored_upsert_def)

lemma update_one_set_cases:
  "update_one_set e j fs w = (r, w1) \<Longrightarrow>
     (r = Inr () \<and> w1 = stored_set j fs w)
     \<or> ((\<exists>err. r = Inl err \<and> db_error e (length (trace w)) = Some err)
         \<and> w1 = w\<lparr>trace := trace w @ [DbSet j fs]\<rparr>)"
  by (auto simp: update_one_set_def stored_set_def Let_def split: option.splits)

lemma update_one_upsert_cases:
  "update_one_upsert e j fs w = (r, w1) \<Longrightarrow>
     (r = Inr () \<and> w1 = stored_upsert j fs w)
     \<or> ((\<exists>err. r = Inl err \<and> db_error e (length (trace w)) = Some err)
         \<and> w1 = w\<lparr>trace := trace w @ [DbUpsert j fs]\<rparr>)"
  by (auto simp: update_one_upsert_def stored_upsert_def Let_def split: option.splits)

lemma update_one_set_ok:
  "store_ok e \<Longrightarrow> update_one_set e j fs w = (Inr (), stored_set j fs w)"
  by (simp add: store_ok_def update_one_set_def stored_set_def)

lemma update_one_upsert_ok:
  "store_ok e \<Longrightarrow> update_one_upsert e j fs w = (Inr (), stored_upsert j fs w)"
  by (simp add: store_ok_def update_one_upsert_def stored_upsert_def)

lemma update_one_set_world:
  "update_one_set e j fs w = (r, w1) \<Longrightarrow>
     trace w1 = trace w @ [DbSet j fs] \<and> clock w1 = clock w \<and> objects w1 = objects w"
  by (auto dest!: update_one_set_cases)

lemma update_one_upsert_world:
  "update_one_upsert e j fs w = (r, w1) \<Longrightarrow>
     trace w1 = trace w @ [DbUpsert j fs] \<and> clock w1 = clock w \<and> objects w1 = objects w"
  by (auto dest!: update_one_upsert_cases)

lemma put_object_world:
  "put_object e b k body ct w = (r, w1) \<Longrightarrow>
     trace w1 = trace w @ [S3Put b k body ct] \<and> jobs w1 = jobs w \<and> clock w1 = clock w"
  by (auto simp: put_object_def Let_def split: option.splits)

lemma checkpoint_result:
  "checkpoint e fr idx a w = (r, w1) \<Longrightarrow> r = Inr a \<or> (\<exists>err. r = Inl err)"
  by (auto simp: checkpoint_def Let_def split_def split: if_splits sum.splits)

lemma div_le_30: "idx < t \<Longrightarrow> (Suc idx * 30) div t \<le> 30"
proof -
  assume "idx < t"
  then have "Suc idx * 30 \<le> 30 * t" by simp
  then have "(Suc idx * 30) div t \<le> (30 * t) div t" by (rule div_le_mono)
  also have "\<dots> = 30" using \<open>idx < t\<close> by simp
  finally show ?thesis .
qed

lemma validate_and_complete_success:
  "validate_and_complete e d fr a w = (Inr r, w') \<Longrightarrow>
     r = \<lparr>res_statusCode = 200, res_jobId = jobId d, res_status = ''SUCCESS'', res_error = None\<rparr>"
  by (auto simp: validate_and_complete_def Let_def split_def
           split: l2_result.splits sum.splits)

lemma handler_body_success:
  "handler_body e d w = (Inr r, w') \<Longrightarrow>
     r = \<lparr>res_statusCode = 200, res_jobId = jobId d, res_status = ''SUCCESS'', res_error = None\<rparr>"
  by (auto simp: handler_body_def split: prod.splits sum.splits dest: validate_and_complete_success)

text \<open>The \<open>except\<close> clause: its update is the last call, whether it raises or not.\<close>

lemma failure_boundary_cases:
  assumes "failure_boundary e j err w = (out, w')"
  shows "trace w' = trace w @ [DbSet (oval j)
            [(''status'', VStr ''FAILED''), (''error'', VStr err),
             (''updatedOn_KJUSYSCommon_DateTime'', VInt (ist_clock e (clock w)))]]
       \<and> ((out = Inr \<lparr>res_statusCode = 500, res_jobId = j, res_status = ''FAILED'',
                       res_error = Some err\<rparr>
            \<and> db_error e (length (trace w)) = None
            \<and> w' = stored_set (oval j)
                     [(''status'', VStr ''FAILED''), (''error'', VStr err),
                      (''updatedOn_KJUSYSCommon_DateTime'', VInt (ist_clock e (clock w)))]
                     (w\<lparr>clock := Suc (clock w)\<rparr>))
           \<or> ((\<exists>err2. out = Inl err2 \<and> db_error e (length (trace w)) = Some err2)
               \<and> jobs w' = jobs w))"
  using assms
  by (auto simp: failure_boundary_def get_ist_millis_def update_one_set_def stored_set_def Let_def
           split: option.splits)

lemma failure_boundary_ok:
  "store_ok e \<Longrightarrow>
   failure_boundary e j err w =
     (Inr \<lparr>res_statusCode = 500, res_jobId = j, res_status = ''FAILED'', res_error = Some err\<rparr>,
      stored_set (oval j)
        [(''status'', VStr ''FAILED''), (''error'', VStr err),
         (''updatedOn_KJUSYSCommon_DateTime'', VInt (ist_clock e (clock w)))]
        (w\<lparr>clock := Suc (clock w)\<rparr>))"
  by (simp add: failure_boundary_def get_ist_millis_def update_one_set_ok)

section \<open>Facts about the extraction loop and the collection\<close>

lemma checkpoint_cases:
  assumes "checkpoint e fr idx a w = (r, w1)"
  shows "(w1 = w \<and> r = Inr a \<and> (idx + 1) mod 10 \<noteq> 0)
       \<or> ((idx + 1) mod 10 = 0 \<and> total_entries fr = 0 \<and> trace w1 = trace w \<and> jobs w1 = jobs w
            \<and> (\<exists>err. r = Inl err))
       \<or> ((idx + 1) mod 10 = 0 \<and> r = Inr a \<and>
            w1 = stored_set (oval (job_id fr))
                   [(''progress'', VInt (10 + int ((idx + 1) * 30 div total_entries fr))),
                    (''updatedOn_KJUSYSCommon_DateTime'', VInt (ist_clock e (clock w)))]
                   (w\<lparr>clock := Suc (clock w)\<rparr>))
       \<or> ((idx + 1) mod 10 = 0 \<and> (\<exists>err. r = Inl err) \<and> jobs w1 = jobs w \<and>
            trace w1 = trace w @ [DbSet (oval (job_id fr))
                   [(''progress'', VInt (10 + int ((idx + 1) * 30 div total_entries fr))),
                    (''updatedOn_KJUSYSCommon_DateTime'', VInt (ist_clock e (clock w)))]])"
  using assms
  by (auto simp: checkpoint_def get_ist_millis_def update_one_set_def stored_set_def Let_def
           split: if_splits option.splits)

lemma put_then_checkpoint_ops:
  assumes "put_object e (bucket fr) k body ct w = (Inr u, w1)"
      and "checkpoint e fr idx a w1 = (r, w2)"
  shows "\<exists>ops. trace w2 = trace w @ ops \<and> entry_ops fr idx ops"
  using put_object_world[OF assms(1)] checkpoint_cases[OF assms(2)]
  by (auto simp: entry_ops_def checkpoint_write_def)

lemma put_failed_ops:
  assumes "put_object e (bucket fr) k body ct w = (Inl err, w1)"
  shows "\<exists>ops. trace w1 = trace w @ ops \<and> entry_ops fr idx ops"
  using put_object_world[OF assms] by (auto simp: entry_ops_def)

lemma process_entry_ops:
  assumes "process_entry e fr idx n a w = (r, w')"
  shows "\<exists>ops. trace w' = trace w @ ops \<and> entry_ops fr idx ops"
proof -
  have nil: "entry_ops fr idx []" by (simp add: entry_ops_def)
  show ?thesis
    using assms nil
    apply (simp add: process_entry_def Let_def split: if_splits sum.splits prod.splits)
    apply (auto dest: put_then_checkpoint_ops put_failed_ops)
    done
qed

lemma progress_writes_append [simp]:
  "progress_writes (xs @ ys) = progress_writes xs @ progress_writes ys"
  by (induction xs) (auto split: option.splits val.splits)

lemma status_writes_append [simp]:
  "status_writes (xs @ ys) = status_writes xs @ status_writes ys"
  by (induction xs) (auto split: option.splits val.splits)

lemma entry_ops_loop_effect:
  assumes "entry_ops fr idx ops" "idx < total_entries fr"
  shows "list_all (loop_effect fr) ops"
  using assms div_le_30[of idx "total_entries fr"]
  by (auto simp: entry_ops_def checkpoint_write_def)

lemma entry_ops_progress:
  assumes "entry_ops fr idx ops"
  shows "progress_writes ops = [] \<or>
         progress_writes ops = [10 + int (Suc idx * 30 div total_entries fr)]"
  using assms by (auto simp: entry_ops_def checkpoint_write_def)

lemma loop_effect_progress_bounds:
  "list_all (loop_effect fr) ops \<Longrightarrow> \<forall>p\<in>set (progress_writes ops). 10 \<le> p \<and> p \<le> 40"
proof (induction ops)
  case Nil
  then show ?case by simp
next
  case (Cons x xs)
  then show ?case by (cases x) auto
qed

lemma loop_effect_status:
  "list_all (loop_effect fr) ops \<Longrightarrow> status_writes ops = []"
proof (induction ops)
  case Nil
  then show ?case by simp
next
  case (Cons x xs)
  then show ?case by (cases x) auto
qed

lemma extract_loop_ops:
  assumes "extract_loop e fr idx names a w = (r, w')"
      and "idx + length names \<le> total_entries fr"
  shows "\<exists>ops. trace w' = trace w @ ops \<and> list_all (loop_effect fr) ops
           \<and> sorted (progress_writes ops)
           \<and> (\<forall>p\<in>set (progress_writes ops). 10 + int (idx * 30 div total_entries fr) \<le> p)"
  using assms
proof (induction names arbitrary: idx a w)
  case Nil
  then show ?case by simp
next
  case (Cons n names)
  obtain r1 w1 where pe: "process_entry e fr idx n a w = (r1, w1)"
    by (cases "process_entry e fr idx n a w")
  from Cons.prems(2) have lt: "idx < total_entries fr" by simp
  from process_entry_ops[OF pe] obtain ops1
    where t1: "trace w1 = trace w @ ops1" and eo: "entry_ops fr idx ops1" by blast
  have le1: "list_all (loop_effect fr) ops1" using entry_ops_loop_effect[OF eo lt] .
  have mono: "idx * 30 div total_entries fr \<le> Suc idx * 30 div total_entries fr"
    by (rule div_le_mono) simp
  have p1: "progress_writes ops1 = [] \<or>
            progress_writes ops1 = [10 + int (Suc idx * 30 div total_entries fr)]"
    using entry_ops_progress[OF eo] .
  show ?case
  proof (cases r1)
    case (Inl err)
    with Cons.prems(1) pe have "w' = w1" by simp
    with t1 le1 p1 mono show ?thesis by auto
  next
    case (Inr a1)
    with Cons.prems(1) pe have rest: "extract_loop e fr (Suc idx) names a1 w1 = (r, w')" by simp
    from Cons.prems(2) have "Suc idx + length names \<le> total_entries fr" by simp
    from Cons.IH[OF rest this] obtain ops2
      where t2: "trace w' = trace w1 @ ops2" and le2: "list_all (loop_effect fr) ops2"
        and s2: "sorted (progress_writes ops2)"
        and b2: "\<forall>p\<in>set (progress_writes ops2). 10 + int (Suc idx * 30 div total_entries fr) \<le> p"
      by blast
    have "trace w' = trace w @ (ops1 @ ops2)" using t1 t2 by simp
    moreover have "list_all (loop_effect fr) (ops1 @ ops2)" using le1 le2 by simp
    moreover have "sorted (progress_writes (ops1 @ ops2))"
      using p1 s2 b2 by (auto simp: sorted_append)
    moreover have "\<forall>p\<in>set (progress_writes (ops1 @ ops2)).
                     10 + int (idx * 30 div total_entries fr) \<le> p"
      using p1 b2 mono by auto
    ultimately show ?thesis by blast
  qed
qed

subsection \<open>The collection\<close>

lemma map_of_set_fields:
  "map_of (set_fields fs d) k =
     (case map_of (rev fs) k of Some v \<Rightarrow> Some v | None \<Rightarrow> map_of d k)"
  unfolding set_fields_def
  by (induction fs arbitrary: d) (auto simp: update_conv' map_add_def split: option.splits)

lemma filter_matches_set_fields:
  "''jobId'' \<notin> fst ` set fs \<Longrightarrow> filter_matches j (set_fields fs d) = filter_matches j d"
proof -
  assume "''jobId'' \<notin> fst ` set fs"
  then have "''jobId'' \<notin> fst ` set (rev fs)" by simp
  then have "map_of (rev fs) ''jobId'' = None" by (simp add: map_of_eq_None_iff)
  then show ?thesis by (simp add: filter_matches_def map_of_set_fields)
qed

lemma list_ex_update_first:
  "(\<And>d. P (f d) = P d) \<Longrightarrow> list_ex P (update_first Q f ds) = list_ex P ds"
  by (induction ds) auto

lemma has_job_stored_set [simp]:
  "''jobId'' \<notin> fst ` set fs \<Longrightarrow> has_job j (stored_set j' fs w) = has_job j w"
  by (simp add: has_job_def list_ex_update_first filter_matches_set_fields)

lemma has_job_stored_upsert [simp]: "has_job j (stored_upsert j fs w)"
  by (auto simp: has_job_def stored_upsert_def filter_matches_def list_ex_iff)

lemma has_job_trace [simp]: "has_job j (w\<lparr>trace := t\<rparr>) = has_job j w"
  by (simp add: has_job_def)

lemma has_job_clock [simp]: "has_job j (w\<lparr>clock := c\<rparr>) = has_job j w"
  by (simp add: has_job_def)

lemma update_one_set_has_job:
  "''jobId'' \<notin> fst ` set fs \<Longrightarrow> update_one_set e j' fs w = (r, w1)
     \<Longrightarrow> has_job j w1 = has_job j w"
  by (auto dest!: update_one_set_cases)

lemma find_update_first:
  assumes "list_ex P ds" "\<And>d. P d \<Longrightarrow> P (f d)"
  shows "\<exists>d. P d \<and> List.find P (update_first P f ds) = Some (f d)"
  using assms by (induction ds) auto

lemma find_job_stored_set:
  assumes "has_job j w" "''jobId'' \<notin> fst ` set fs"
  shows "\<exists>d. find_job j (jobs (stored_set j fs w)) = Some d \<and>
             (\<forall>k v. map_of (rev fs) k = Some v \<longrightarrow> map_of d k = Some v)"
proof -
  from find_update_first[of "filter_matches j" "jobs w" "set_fields fs"] assms
  obtain d0 where "List.find (filter_matches j)
        (update_first (filter_matches j) (set_fields fs) (jobs w)) = Some (set_fields fs d0)"
    by (auto simp: has_job_def filter_matches_set_fields)
  then show ?thesis by (auto simp: find_job_def map_of_set_fields)
qed

lemma checkpoint_has_job:
  assumes "checkpoint e fr idx a w = (r, w1)"
  shows "has_job j w1 = has_job j w"
proof -
  from checkpoint_cases[OF assms] consider "w1 = w" | "jobs w1 = jobs w"
    | "w1 = stored_set (oval (job_id fr))
                   [(''progress'', VInt (10 + int ((idx + 1) * 30 div total_entries fr))),
                    (''updatedOn_KJUSYSCommon_DateTime'', VInt (ist_clock e (clock w)))]
                   (w\<lparr>clock := Suc (clock w)\<rparr>)"
    by blast
  then show ?thesis
  proof cases
    case 1
    then show ?thesis by simp
  next
    case 2
    then show ?thesis by (simp add: has_job_def)
  next
    case 3
    show ?thesis by (subst 3) simp
  qed
qed

lemma put_object_has_job:
  "put_object e b k body ct w = (u, w1) \<Longrightarrow> has_job j w1 = has_job j w"
  by (auto dest!: put_object_world simp: has_job_def)

lemma process_entry_has_job:
  assumes "process_entry e fr idx n a w = (r, w')"
  shows "has_job j w' = has_job j w"
  using assms
  apply (simp add: process_entry_def Let_def split: if_splits sum.splits prod.splits)
  apply (auto dest: put_object_has_job[where j=j] checkpoint_has_job[where j=j])
  done

lemma extract_loop_has_job:
  "extract_loop e fr idx names a w = (r, w') \<Longrightarrow> has_job j w' = has_job j w"
proof (induction names arbitrary: idx a w)
  case Nil
  then show ?case by simp
next
  case (Cons n names)
  then show ?case
    by (auto split: prod.splits sum.splits dest: process_entry_has_job)
qed

section \<open>The phases of a run\<close>


lemma loop_effect_timestamps:
  "list_all (loop_effect fr) ops \<Longrightarrow> list_all timestamps_ok ops"
proof (induction ops)
  case Nil
  then show ?case by simp
next
  case (Cons x xs)
  then show ?case by (cases x) auto
qed

lemma loop_effect_not_terminal:
  "list_all (loop_effect fr) ops \<Longrightarrow> list_all (\<lambda>x. \<not> terminal_write x) ops"
proof (induction ops)
  case Nil
  then show ?case by simp
next
  case (Cons x xs)
  then show ?case by (cases x) (auto simp: terminal_write_def)
qed

lemma frozen_after_terminal_snoc:
  "list_all (\<lambda>x. \<not> terminal_write x) pre \<Longrightarrow> frozen_after_terminal (pre @ [x])"
  by (induction pre) auto

lemma not_store_ok: "db_error e n = Some err \<Longrightarrow> \<not> store_ok e"
  by (auto simp: store_ok_def)

text \<open>Steps 2 and 3 write the two first progress values, unless the store raises.\<close>

lemma start_job_cases:
  assumes "start_job e d w = (r, w0)"
  shows "\<exists>ops. trace w0 = trace w @ ops \<and> list_all timestamps_ok ops
           \<and> list_all (\<lambda>x. \<not> terminal_write x) ops
           \<and> (((\<exists>err. r = Inl err) \<and> \<not> store_ok e)
               \<or> (r = Inr () \<and> progress_writes ops = [0, 10]
                   \<and> status_writes ops = [''PENDING'', ''UNZIPPING'']
                   \<and> has_job (oval (jobId d)) w0))"
proof -
  let ?j = "oval (jobId d)"
  let ?w1 = "w\<lparr>clock := Suc (clock w)\<rparr>"
  let ?C = "[(''createdOn_KJUSYSCommon_DateTime'', VInt (ist_clock e (clock w))),
                 (''type'', VStr ''ANSWER_SCRIPT_PROCESSING''),
                 (''examCode_Examination_Text'', oval (examCode d)),
                 (''courseCode_Examination_Text'', oval (courseCode d)),
                 (''uploadedBy'', oval (uploadedBy d)),
                 (''eventSource'', VStr (source d)),
                 (''status'', VStr ''PENDING''),
                 (''progress'', VInt 0)]"
  let ?Z = "[(''status'', VStr ''UNZIPPING''),
                (''currentStep'', VStr ''Extracting files''),
                (''progress'', VInt 10),
                (''s3Bucket'', oval (s3Bucket d)),
                (''s3Key'', oval (s3Key d)),
                (''updatedOn_KJUSYSCommon_DateTime'', VInt (ist_clock e (clock w)))]"
  have c: "progress_writes [DbUpsert ?j ?C] = [0]" "status_writes [DbUpsert ?j ?C] = [''PENDING'']"
    "timestamps_ok (DbUpsert ?j ?C)" "\<not> terminal_write (DbUpsert ?j ?C)"
    by (simp_all add: terminal_write_def)
  have z: "progress_writes [DbSet ?j ?Z] = [10]" "status_writes [DbSet ?j ?Z] = [''UNZIPPING'']"
    "timestamps_ok (DbSet ?j ?Z)" "\<not> terminal_write (DbSet ?j ?Z)"
    by (simp_all add: terminal_write_def)
  obtain u w2 where up: "update_one_upsert e ?j ?C ?w1 = (u, w2)"
    by (cases "update_one_upsert e ?j ?C ?w1")
  show ?thesis
  proof (cases u)
    case (Inl err)
    with assms up have r: "r = Inl err" "w0 = w2"
      by (simp_all add: start_job_def get_ist_millis_def)
    from update_one_upsert_cases[OF up] Inl
    have "trace w2 = trace w @ [DbUpsert ?j ?C]" "\<not> store_ok e"
      by (auto dest: not_store_ok)
    with r c show ?thesis by auto
  next
    case (Inr x)
    with update_one_upsert_cases[OF up] have w2: "w2 = stored_upsert ?j ?C ?w1" by auto
    from assms up Inr have s: "update_one_set e ?j ?Z w2 = (r, w0)"
      by (simp add: start_job_def get_ist_millis_def)
    from update_one_set_world[OF s] w2
    have t: "trace w0 = trace w @ [DbUpsert ?j ?C, DbSet ?j ?Z]" by simp
    have k: "list_all timestamps_ok [DbUpsert ?j ?C, DbSet ?j ?Z]"
            "list_all (\<lambda>x. \<not> terminal_write x) [DbUpsert ?j ?C, DbSet ?j ?Z]"
      using z(3,4) by (simp_all add: terminal_write_def)
    from update_one_set_cases[OF s]
    have "((\<exists>err. r = Inl err) \<and> \<not> store_ok e) \<or> (r = Inr () \<and> has_job ?j w0)"
      using w2 by (auto dest: not_store_ok)
    moreover have "progress_writes [DbUpsert ?j ?C, DbSet ?j ?Z] = [0, 10]"
       "status_writes [DbUpsert ?j ?C, DbSet ?j ?Z] = [''PENDING'', ''UNZIPPING'']"
      by simp_all
    ultimately show ?thesis using t k by blast
  qed
qed

lemma start_job_ok:
  "store_ok e \<Longrightarrow> fst (start_job e d w) = Inr ()"
  using start_job_cases[of e d w "fst (start_job e d w)" "snd (start_job e d w)"]
  by auto


lemma extraction_ops:
  assumes "extraction e d w = (r, w')"
  shows "\<exists>fr ops. trace w' = trace w @ S3Get (s3Bucket d) (s3Key d) # ops
           \<and> list_all (loop_effect fr) ops \<and> sorted (progress_writes ops)
           \<and> has_job j w' = has_job j w"
proof -
  obtain g w1 where g: "get_object e (s3Bucket d) (s3Key d) w = (g, w1)"
    by (cases "get_object e (s3Bucket d) (s3Key d) w")
  then have w1: "trace w1 = trace w @ [S3Get (s3Bucket d) (s3Key d)]" "has_job j w1 = has_job j w"
    by (auto simp: get_object_def has_job_def)
  have triv: "list_all (loop_effect fr0) []" "sorted (progress_writes [])" for fr0 by simp_all
  show ?thesis
  proof (cases g)
    case (Inl err)
    with assms g have "w' = w1" by (simp add: extraction_def)
    with w1 show ?thesis by auto
  next
    case (Inr zb)
    show ?thesis
    proof (cases "open_zip e zb")
      case (Inl err)
      with assms g Inr have "w' = w1" by (simp add: extraction_def)
      with w1 show ?thesis by auto
    next
      case zf: (Inr zf)
      obtain r2 w2 where l: "extract_loop e (make_frame d zf) 0 (namelist zf) init_acc w1 = (r2, w2)"
        by (cases "extract_loop e (make_frame d zf) 0 (namelist zf) init_acc w1")
      have "0 + length (namelist zf) \<le> total_entries (make_frame d zf)"
        by (simp add: make_frame_def)
      from extract_loop_ops[OF l this] obtain ops where
        o: "trace w2 = trace w1 @ ops" "list_all (loop_effect (make_frame d zf)) ops"
           "sorted (progress_writes ops)" by blast
      have hj: "has_job j w2 = has_job j w1" using extract_loop_has_job[OF l] .
      from assms g Inr zf l have "w' = w2"
        by (auto simp: extraction_def Let_def split: sum.splits if_splits)
      with o hj w1 show ?thesis by auto
    qed
  qed
qed

lemma delete_zip_file_ops:
  assumes "delete_zip_file e b k j w = (ok, w')"
  shows "\<exists>ops. trace w' = trace w @ ops \<and> progress_writes ops = [] \<and> status_writes ops = []
           \<and> list_all timestamps_ok ops \<and> list_all (\<lambda>x. \<not> terminal_write x) ops
           \<and> has_job j' w' = has_job j' w"
  using assms
  by (auto simp: delete_zip_file_def update_one_set_def Let_def split_def terminal_write_def
                 has_job_def list_ex_update_first filter_matches_set_fields
           split: option.splits)

lemma delete_zip_file_snd:
  "\<exists>ops. trace (snd (delete_zip_file e b k j w)) = trace w @ ops \<and> progress_writes ops = []
      \<and> status_writes ops = [] \<and> list_all timestamps_ok ops
      \<and> list_all (\<lambda>x. \<not> terminal_write x) ops
      \<and> has_job j' (snd (delete_zip_file e b k j w)) = has_job j' w"
  using delete_zip_file_ops[of e b k j w "fst (delete_zip_file e b k j w)"
          "snd (delete_zip_file e b k j w)" j']
  by simp

lemma invoke_lambda2_sync_world:
  "snd (invoke_lambda2_sync e pl w) = w\<lparr>trace := trace w @ [Invoke (VALIDATE_LAMBDA_NAME e) pl]\<rparr>"
  by (auto simp: invoke_lambda2_sync_def Let_def split: invoke_outcome.splits option.splits)

lemma invoke_lambda2_sync_fst:
  "fst (invoke_lambda2_sync e pl w) = fst (invoke_lambda2_sync e pl world0)"
  by (auto simp: invoke_lambda2_sync_def Let_def split: invoke_outcome.splits option.splits)

text \<open>
  Steps 6 to 9, in every outcome: an update of the store raised, or the validation failed
  and was recorded, or the run completed.
\<close>

lemma validate_and_complete_cases:
  assumes "validate_and_complete e d fr a w = (r, w')"
  shows "\<exists>ops. trace w' = trace w @ ops \<and> list_all timestamps_ok ops
           \<and> has_job j' w' = has_job j' w
           \<and> (((\<exists>err. r = Inl err) \<and> \<not> store_ok e)
               \<or> (\<exists>msg t. fst (invoke_lambda2_sync e (VDoc [(''jobId'', oval (jobId d))]) world0)
                              = L2Failure msg
                     \<and> r = Inl (''Lambda 2 failed: '' @ py_str msg)
                     \<and> progress_writes ops = [40]
                     \<and> status_writes ops = [''UNZIPPED'', ''VALIDATION_FAILED'']
                     \<and> list_all (\<lambda>x. \<not> terminal_write x) ops
                     \<and> last ops = DbSet (oval (jobId d))
                           [(''status'', VStr ''VALIDATION_FAILED''),
                            (''error'', VStr (''Validation failed: '' @ py_str msg)),
                            (''updatedOn_KJUSYSCommon_DateTime'', VInt t)])
               \<or> (\<exists>pre t. r = Inr \<lparr>res_statusCode = 200, res_jobId = jobId d,
                                      res_status = ''SUCCESS'', res_error = None\<rparr>
                     \<and> ops = pre @ [DbSet (oval (jobId d))
                           [(''status'', VStr ''COMPLETED''),
                            (''updatedOn_KJUSYSCommon_DateTime'', VInt t)]]
                     \<and> progress_writes pre = [40] \<and> status_writes pre = [''UNZIPPED'']
                     \<and> list_all (\<lambda>x. \<not> terminal_write x) pre))"
proof -
  let ?j = "oval (jobId d)"
  let ?pl = "VDoc [(''jobId'', oval (jobId d))]"
  let ?w1 = "w\<lparr>clock := Suc (clock w)\<rparr>"
  let ?Ufs = "[(''progress'', VInt 40),
                 (''status'', VStr ''UNZIPPED''),
                 (''currentStep'', VStr ''Starting validation''),
                 (''updatedOn_KJUSYSCommon_DateTime'', VInt (ist_clock e (clock w))),
                 (''totalFiles'', VInt (int (total_entries fr))),
                 (''validFilesProcessed'', VInt (int (valid_files_processed a))),
                 (''totalPDFs'', VInt (int (length (pdf_files a)))),
                 (''pdfFiles'', VList (pdf_files a)),
                 (''excelFile'', (case excel_file a of None \<Rightarrow> VNull | Some x \<Rightarrow> x)),
                 (''unzipFolderPath'', VStr (unzip_prefix fr))]"
  let ?U = "DbSet ?j ?Ufs"
  let ?I = "Invoke (VALIDATE_LAMBDA_NAME e) ?pl"
  have U: "progress_writes [?U] = [40]" "status_writes [?U] = [''UNZIPPED'']" "timestamps_ok ?U"
          "\<not> terminal_write ?U"
    by (simp_all add: terminal_write_def)
  have I: "progress_writes [?I] = []" "status_writes [?I] = []" "timestamps_ok ?I"
          "\<not> terminal_write ?I"
    by (simp_all add: terminal_write_def)
  obtain u w2 where up: "update_one_set e ?j ?Ufs ?w1 = (u, w2)"
    by (cases "update_one_set e ?j ?Ufs ?w1")
  have t2: "trace w2 = trace w @ [?U]" using update_one_set_world[OF up] by simp
  have h2: "has_job j' w2 = has_job j' w"
    using update_one_set_has_job[OF _ up, of j'] by simp
  show ?thesis
  proof (cases u)
    case (Inl err)
    with assms up have "r = Inl err" "w' = w2"
      by (simp_all add: validate_and_complete_def get_ist_millis_def)
    moreover from update_one_set_cases[OF up] Inl have "\<not> store_ok e" by (auto dest: not_store_ok)
    ultimately show ?thesis using t2 h2 U(3) by auto
  next
    case (Inr x)
    let ?w3 = "w2\<lparr>trace := trace w2 @ [?I]\<rparr>"
    let ?w4 = "?w3\<lparr>clock := Suc (clock ?w3)\<rparr>"
    have sw: "snd (invoke_lambda2_sync e ?pl w2) = ?w3" by (rule invoke_lambda2_sync_world)
    show ?thesis
    proof (cases "fst (invoke_lambda2_sync e ?pl w2)")
      case (L2Failure msg)
      with sw have inv: "invoke_lambda2_sync e ?pl w2 = (L2Failure msg, ?w3)"
        by (simp add: prod_eq_iff)
      let ?Vfs = "[(''status'', VStr ''VALIDATION_FAILED''),
                   (''error'', VStr (''Validation failed: '' @ py_str msg)),
                   (''updatedOn_KJUSYSCommon_DateTime'', VInt (ist_clock e (clock ?w3)))]"
      let ?V = "DbSet ?j ?Vfs"
      have V: "progress_writes [?V] = []" "status_writes [?V] = [''VALIDATION_FAILED'']"
              "timestamps_ok ?V" "\<not> terminal_write ?V"
        by (simp_all add: terminal_write_def)
      have step: "validate_and_complete e d fr a w =
                    (case update_one_set e ?j ?Vfs ?w4 of
                       (Inl err, w5) \<Rightarrow> (Inl err, w5)
                     | (Inr u2', w5) \<Rightarrow> (Inl (''Lambda 2 failed: '' @ py_str msg), w5))"
        using up Inr inv
        by (simp add: validate_and_complete_def get_ist_millis_def Let_def)
      obtain u2 w5 where up2: "update_one_set e ?j ?Vfs ?w4 = (u2, w5)"
        by (cases "update_one_set e ?j ?Vfs ?w4")
      from assms step up2
      have res: "(r, w') = (case u2 of Inl err \<Rightarrow> (Inl err, w5)
                            | Inr u2' \<Rightarrow> (Inl (''Lambda 2 failed: '' @ py_str msg), w5))"
        by (simp split: sum.splits)
      have t5: "trace w5 = trace w @ [?U, ?I, ?V]"
        using update_one_set_world[OF up2] t2 by simp
      have h5: "has_job j' w5 = has_job j' w"
        using update_one_set_has_job[OF _ up2, of j'] h2 by simp
      have k: "list_all timestamps_ok [?U, ?I, ?V]" using U(3) I(3) V(3) by simp
      have f0: "fst (invoke_lambda2_sync e ?pl world0) = L2Failure msg"
        using L2Failure invoke_lambda2_sync_fst[of e ?pl w2] by simp
      show ?thesis
      proof (cases u2)
        case (Inl err)
        with res have "r = Inl err" "w' = w5" by simp_all
        moreover from update_one_set_cases[OF up2] Inl have "\<not> store_ok e"
          by (auto dest: not_store_ok)
        ultimately show ?thesis using t5 h5 k by blast
      next
        case (Inr y)
        with res have r: "r = Inl (''Lambda 2 failed: '' @ py_str msg)" "w' = w5" by simp_all
        have "progress_writes [?U, ?I, ?V] = [40]"
             "status_writes [?U, ?I, ?V] = [''UNZIPPED'', ''VALIDATION_FAILED'']"
             "list_all (\<lambda>x. \<not> terminal_write x) [?U, ?I, ?V]"
             "last [?U, ?I, ?V] = ?V"
          by (simp_all add: terminal_write_def)
        with r t5 h5 k f0 show ?thesis by blast
      qed
    next
      case (L2Success resp)
      with sw have inv: "invoke_lambda2_sync e ?pl w2 = (L2Success resp, ?w3)"
        by (simp add: prod_eq_iff)
      define w4 where "w4 = (if DELETE_ZIP_AFTER_SUCCESS e
                   then snd (delete_zip_file e (s3Bucket d) (s3Key d) (jobId d) ?w3) else ?w3)"
      let ?Cfs = "[(''status'', VStr ''COMPLETED''),
                   (''updatedOn_KJUSYSCommon_DateTime'', VInt (ist_clock e (clock w4)))]"
      let ?C = "DbSet ?j ?Cfs"
      from delete_zip_file_snd[of e "s3Bucket d" "s3Key d" "jobId d" ?w3 j']
      obtain del where del: "trace w4 = trace ?w3 @ del" "progress_writes del = []"
          "status_writes del = []" "list_all timestamps_ok del"
          "list_all (\<lambda>x. \<not> terminal_write x) del" "has_job j' w4 = has_job j' ?w3"
        unfolding w4_def by (cases "DELETE_ZIP_AFTER_SUCCESS e") auto
      have step: "validate_and_complete e d fr a w =
                    (case update_one_set e ?j ?Cfs (w4\<lparr>clock := Suc (clock w4)\<rparr>) of
                       (Inl err, w6) \<Rightarrow> (Inl err, w6)
                     | (Inr u3', w6) \<Rightarrow> (Inr \<lparr>res_statusCode = 200, res_jobId = jobId d,
                                  res_status = ''SUCCESS'', res_error = None\<rparr>, w6))"
        using up Inr inv
        by (cases "DELETE_ZIP_AFTER_SUCCESS e")
           (simp_all add: validate_and_complete_def get_ist_millis_def Let_def w4_def)
      obtain u3 w6 where up3: "update_one_set e ?j ?Cfs (w4\<lparr>clock := Suc (clock w4)\<rparr>) = (u3, w6)"
        by (cases "update_one_set e ?j ?Cfs (w4\<lparr>clock := Suc (clock w4)\<rparr>)")
      from assms step up3
      have res: "(r, w') = (case u3 of Inl err \<Rightarrow> (Inl err, w6)
                            | Inr u3' \<Rightarrow> (Inr \<lparr>res_statusCode = 200, res_jobId = jobId d,
                                  res_status = ''SUCCESS'', res_error = None\<rparr>, w6))"
        by (simp split: sum.splits)
      let ?pre = "[?U] @ [?I] @ del"
      have t6: "trace w6 = trace w @ ?pre @ [?C]"
        using update_one_set_world[OF up3] del(1) t2 by simp
      have h6: "has_job j' w6 = has_job j' w"
        using update_one_set_has_job[OF _ up3, of j'] del(6) h2 by simp
      have C: "timestamps_ok ?C" by simp
      have k: "list_all timestamps_ok (?pre @ [?C])" using U(3) I(3) del(4) C by simp
      have p: "progress_writes ?pre = [40]"
        unfolding progress_writes_append using U(1) I(1) del(2) by simp
      have s: "status_writes ?pre = [''UNZIPPED'']"
        unfolding status_writes_append using U(2) I(2) del(3) by simp
      have n: "list_all (\<lambda>x. \<not> terminal_write x) ?pre" using U(4) I(4) del(5) by simp
      show ?thesis
      proof (cases u3)
        case (Inl err)
        with res have "r = Inl err" "w' = w6" by simp_all
        moreover from update_one_set_cases[OF up3] Inl have "\<not> store_ok e"
          by (auto dest: not_store_ok)
        ultimately show ?thesis using t6 h6 k by blast
      next
        case (Inr y)
        with res have "r = Inr \<lparr>res_statusCode = 200, res_jobId = jobId d,
                                  res_status = ''SUCCESS'', res_error = None\<rparr>" "w' = w6"
          by simp_all
        with t6 h6 k p s n show ?thesis by blast
      qed
    qed
  qed
qed


lemma handler_body_success_ops:
  assumes "handler_body e d w = (Inr res, w')"
  shows "\<exists>pre cps t. trace w' = trace w @ pre @ [DbSet (oval (jobId d))
                     [(''status'', VStr ''COMPLETED''),
                      (''updatedOn_KJUSYSCommon_DateTime'', VInt t)]]
           \<and> progress_writes pre = [0, 10] @ cps @ [40] \<and> sorted cps
           \<and> (\<forall>p\<in>set cps. 10 \<le> p \<and> p \<le> 40)
           \<and> status_writes pre = [''PENDING'', ''UNZIPPING'', ''UNZIPPED'']
           \<and> list_all timestamps_ok pre \<and> list_all (\<lambda>x. \<not> terminal_write x) pre
           \<and> has_job (oval (jobId d)) w'"
proof -
  let ?j = "oval (jobId d)"
  obtain s w0 where sj: "start_job e d w = (s, w0)" by (cases "start_job e d w")
  with assms have s: "s = Inr ()" by (cases s) (auto simp: handler_body_def)
  obtain x w1 where ex: "extraction e d w0 = (x, w1)" by (cases "extraction e d w0")
  with assms sj s obtain fr a where x: "x = Inr (fr, a)"
    and vc: "validate_and_complete e d fr a w1 = (Inr res, w')"
    by (auto simp: handler_body_def split: sum.splits)
  from start_job_cases[OF sj] s obtain ops0 where
    o0: "trace w0 = trace w @ ops0" "progress_writes ops0 = [0, 10]"
        "status_writes ops0 = [''PENDING'', ''UNZIPPING'']" "list_all timestamps_ok ops0"
        "list_all (\<lambda>x. \<not> terminal_write x) ops0" "has_job ?j w0"
    by auto
  from extraction_ops[OF ex, of ?j] obtain fr1 ops1 where
    o1: "trace w1 = trace w0 @ S3Get (s3Bucket d) (s3Key d) # ops1"
        "list_all (loop_effect fr1) ops1" "sorted (progress_writes ops1)"
        "has_job ?j w1 = has_job ?j w0"
    by blast
  from validate_and_complete_cases[OF vc, of ?j] obtain ops2 pre2 t where
    o2: "trace w' = trace w1 @ ops2"
        "ops2 = pre2 @ [DbSet ?j [(''status'', VStr ''COMPLETED''),
                      (''updatedOn_KJUSYSCommon_DateTime'', VInt t)]]"
        "progress_writes pre2 = [40]" "status_writes pre2 = [''UNZIPPED'']"
        "list_all timestamps_ok ops2" "list_all (\<lambda>x. \<not> terminal_write x) pre2"
        "has_job ?j w' = has_job ?j w1"
    by auto
  let ?G = "S3Get (s3Bucket d) (s3Key d)"
  let ?pre = "ops0 @ [?G] @ ops1 @ pre2"
  have G: "progress_writes [?G] = []" "status_writes [?G] = []" "\<not> terminal_write ?G"
    by (simp_all add: terminal_write_def)
  have 1: "trace w' = trace w @ ?pre @ [DbSet ?j
                     [(''status'', VStr ''COMPLETED''),
                      (''updatedOn_KJUSYSCommon_DateTime'', VInt t)]]"
    by (simp add: o2(1) o2(2) o1(1) o0(1))
  have 2: "progress_writes ?pre = [0, 10] @ progress_writes ops1 @ [40]"
    unfolding progress_writes_append using o0(2) o2(3) G(1) by simp
  have 3: "status_writes ?pre = [''PENDING'', ''UNZIPPING'', ''UNZIPPED'']"
    unfolding status_writes_append
    using o0(3) o2(4) G(2) loop_effect_status[OF o1(2)] by simp
  have 4: "list_all timestamps_ok ?pre"
    using o0(4) o2(5) loop_effect_timestamps[OF o1(2)] unfolding o2(2) by simp
  have 5: "list_all (\<lambda>x. \<not> terminal_write x) ?pre"
    using o0(5) o2(6) loop_effect_not_terminal[OF o1(2)] G(3) by simp
  have 6: "has_job ?j w'"
    using o2(7) o1(4) o0(6) by simp
  from 1 2 3 4 5 6 o1(3) loop_effect_progress_bounds[OF o1(2)] show ?thesis by blast
qed

lemma handler_body_timestamps:
  assumes "handler_body e d w = (r, w')"
  shows "\<exists>ops. trace w' = trace w @ ops \<and> list_all timestamps_ok ops"
proof -
  obtain s w0 where sj: "start_job e d w = (s, w0)" by (cases "start_job e d w")
  from start_job_cases[OF sj] obtain ops0 where
    o0: "trace w0 = trace w @ ops0" "list_all timestamps_ok ops0" by blast
  show ?thesis
  proof (cases s)
    case (Inl err)
    with assms sj have "w' = w0" by (simp add: handler_body_def)
    with o0 show ?thesis by blast
  next
    case (Inr u)
    obtain x w1 where ex: "extraction e d w0 = (x, w1)" by (cases "extraction e d w0")
    from extraction_ops[OF ex, of VNull] obtain fr1 ops1 where
      o1: "trace w1 = trace w0 @ S3Get (s3Bucket d) (s3Key d) # ops1"
          "list_all (loop_effect fr1) ops1"
      by blast
    let ?G = "S3Get (s3Bucket d) (s3Key d)"
    have t1: "trace w1 = trace w @ (ops0 @ [?G] @ ops1)" using o0(1) o1(1) by simp
    have k1: "list_all timestamps_ok (ops0 @ [?G] @ ops1)"
      using o0(2) loop_effect_timestamps[OF o1(2)] by simp
    show ?thesis
    proof (cases x)
      case (Inl err1)
      with assms sj Inr ex have "w' = w1" by (simp add: handler_body_def)
      with t1 k1 show ?thesis by blast
    next
      case x: (Inr p)
      then obtain fr a where p: "x = Inr (fr, a)" by (cases p) auto
      with assms sj Inr ex have vc: "validate_and_complete e d fr a w1 = (r, w')"
        by (simp add: handler_body_def)
      from validate_and_complete_cases[OF vc, of VNull] obtain ops2 where
        o2: "trace w' = trace w1 @ ops2" "list_all timestamps_ok ops2"
        by blast
      have "trace w' = trace w @ ((ops0 @ [?G] @ ops1) @ ops2)" using t1 o2(1) by simp
      moreover have "list_all timestamps_ok ((ops0 @ [?G] @ ops1) @ ops2)"
        using k1 o2(2) by simp
      ultimately show ?thesis by blast
    qed
  qed
qed

lemma lambda_handler_success:
  assumes "lambda_handler e ev w = (Inr r, w')" "res_statusCode r = 200"
  shows "\<exists>d. parse_step e ev = Inr d \<and> handler_body e d w = (Inr r, w')"
proof (cases "parse_step e ev")
  case (Inl err)
  with assms(1) have "failure_boundary e None err w = (Inr r, w')"
    by (simp add: lambda_handler_def)
  from failure_boundary_cases[OF this] assms(2) show ?thesis by auto
next
  case (Inr d)
  obtain b w1 where hb: "handler_body e d w = (b, w1)" by (cases "handler_body e d w")
  show ?thesis
  proof (cases b)
    case (Inl err)
    with assms(1) Inr hb have "failure_boundary e (jobId d) err w1 = (Inr r, w')"
      by (simp add: lambda_handler_def)
    from failure_boundary_cases[OF this] assms(2) show ?thesis by auto
  next
    case r0: (Inr r0)
    with assms(1) Inr hb show ?thesis by (simp add: lambda_handler_def)
  qed
qed

lemma lambda_handler_timestamps:
  assumes "lambda_handler e ev w = (out, w')"
  shows "\<exists>ops. trace w' = trace w @ ops \<and> list_all timestamps_ok ops"
proof (cases "parse_step e ev")
  case (Inl err)
  with assms have "failure_boundary e None err w = (out, w')"
    by (simp add: lambda_handler_def)
  from failure_boundary_cases[OF this] show ?thesis by auto
next
  case (Inr d)
  obtain b w1 where hb: "handler_body e d w = (b, w1)" by (cases "handler_body e d w")
  from handler_body_timestamps[OF hb] obtain ops where
    o: "trace w1 = trace w @ ops" "list_all timestamps_ok ops" by blast
  show ?thesis
  proof (cases b)
    case (Inl err)
    with assms Inr hb have "failure_boundary e (jobId d) err w1 = (out, w')"
      by (simp add: lambda_handler_def)
    from failure_boundary_cases[OF this] obtain F where
      "trace w' = trace w1 @ [F]" "timestamps_ok F" by auto
    with o have "trace w' = trace w @ (ops @ [F])" "list_all timestamps_ok (ops @ [F])"
      by simp_all
    then show ?thesis by blast
  next
    case r0: (Inr r0)
    with assms Inr hb have "w' = w1" by (simp add: lambda_handler_def)
    with o show ?thesis by blast
  qed
qed

lemma lambda_handler_timestamps_snd:
  "\<exists>ops. trace (snd (lambda_handler e ev w)) = trace w @ ops \<and> list_all timestamps_ok ops"
  using lambda_handler_timestamps[of e ev w "fst (lambda_handler e ev w)" "snd (lambda_handler e ev w)"]
  by simp

subsection \<open>Creating the record\<close>

lemma stored_upsert_twice:
  "jobs (stored_upsert j f2 (stored_upsert j f1 w)) = jobs (stored_upsert j f1 w)"
  by (auto simp: stored_upsert_def filter_matches_def list_ex_iff)

lemma find_append_new:
  "\<not> list_ex P ds \<Longrightarrow> P x \<Longrightarrow> List.find P (ds @ [x]) = Some x"
  by (induction ds) auto

lemma stored_upsert_fresh:
  "\<not> has_job j w \<Longrightarrow> find_job j (jobs (stored_upsert j fs w)) = Some ((''jobId'', j) # fs)"
  by (simp add: has_job_def stored_upsert_def find_job_def find_append_new filter_matches_def)

lemma update_one_upsert_fresh:
  assumes "update_one_upsert e j fs w = (Inr u, w1)" "\<not> has_job j w"
  shows "find_job j (jobs w1) = Some ((''jobId'', j) # fs)"
  using update_one_upsert_cases[OF assms(1)] stored_upsert_fresh[OF assms(2)] by auto

lemma update_one_upsert_again:
  assumes "update_one_upsert e j f1 w = (Inr u, w1)" "update_one_upsert e j f2 w1 = (r, w2)"
  shows "jobs w2 = jobs w1"
  using update_one_upsert_cases[OF assms(1)] update_one_upsert_cases[OF assms(2)]
        stored_upsert_twice[of j f2 f1 w]
  by auto

subsection \<open>A validation that is rejected\<close>

lemma py_in_suffix: "py_in s (p @ s)"
proof (induction p)
  case Nil
  then show ?case by (cases s) simp_all
next
  case (Cons c p)
  then show ?case by simp
qed

lemma invoke_lambda2_sync_rejected:
  assumes "lambda_invoke e (VALIDATE_LAMBDA_NAME e) pl = Responded sc resp"
      and "errorMessage resp = None"
      and "get_default (statusCode resp) (Some (get_default sc 0)) \<noteq> Some 200"
      and "error_field resp = Some msg"
  shows "fst (invoke_lambda2_sync e pl w) = L2Failure msg"
  using assms by (simp add: invoke_lambda2_sync_def Let_def get_default_def)


lemma validate_and_complete_rejected:
  assumes store: "store_ok e"
      and rej: "fst (invoke_lambda2_sync e (VDoc [(''jobId'', oval (jobId d))]) world0)
                  = L2Failure msg"
  shows "fst (validate_and_complete e d fr a w) = Inl (''Lambda 2 failed: '' @ py_str msg)"
proof -
  let ?pl = "VDoc [(''jobId'', oval (jobId d))]"
  have inv: "invoke_lambda2_sync e ?pl w2
               = (L2Failure msg, w2\<lparr>trace := trace w2 @ [Invoke (VALIDATE_LAMBDA_NAME e) ?pl]\<rparr>)"
    for w2
    using invoke_lambda2_sync_fst[of e ?pl w2] rej
    by (simp add: prod_eq_iff invoke_lambda2_sync_world)
  show ?thesis
    by (simp add: validate_and_complete_def get_ist_millis_def update_one_set_ok[OF store] inv
                  Let_def)
qed

section \<open>The sample inputs evaluated\<close>

lemma direct_event_parse:
  "parse_step (sample_env zf out) direct_event = Inr direct_descriptor"
  by (simp add: parse_step_def parse_event_def direct_event_def direct_descriptor_def py_or_def
                get_default_def get_field_def)

lemma sample_env_simps [simp]:
  "ist_clock (sample_env zf out) n = 1000 + int n"
  "s3_get (sample_env zf out) b k = Inr []"
  "s3_put_error (sample_env zf out) b k' = None"
  "s3_delete_error (sample_env zf out) b k = None"
  "open_zip (sample_env zf out) bs = Inr zf"
  "lambda_invoke (sample_env zf out) n' p = out"
  "VALIDATE_LAMBDA_NAME (sample_env zf out) = ''ValidateExcelFunction''"
  "DELETE_ZIP_AFTER_SUCCESS (sample_env zf out) = True"
  "db_error (sample_env zf out) k'' = None"
  "store_ok (sample_env zf out)"
  by (simp_all add: sample_env_def store_ok_def)

lemma names_facts:
  "\<not> is_junk_file ''a.pdf''" "\<not> is_junk_file ''b.xlsx''" "\<not> is_junk_file ''c.pdf''"
  "lower ''a.pdf'' = ''a.pdf''" "lower ''b.xlsx'' = ''b.xlsx''" "lower ''c.pdf'' = ''c.pdf''"
  by code_simp+

lemma basename_plain [simp]: "CHR ''/'' \<notin> set n \<Longrightarrow> basename n = n"
proof -
  assume "CHR ''/'' \<notin> set n"
  then have h: "takeWhile (\<lambda>c. c \<noteq> CHR ''/'') (rev n) = rev n"
    by auto
  show ?thesis unfolding basename_def by (simp only: h rev_rev_ident)
qed

lemma ten_zip_loop:
  "extract_loop (sample_env ten_zip out) (make_frame direct_descriptor ten_zip) 0
       (namelist ten_zip) init_acc w
   = (Inr \<lparr>pdf_files = [pdf_item (make_frame direct_descriptor ten_zip) ''a.pdf'' 1024,
                         pdf_item (make_frame direct_descriptor ten_zip) ''c.pdf'' 1024],
           excel_file = Some (excel_item (make_frame direct_descriptor ten_zip) ''b.xlsx'' 2048),
           other_files = [], skipped_files = [], valid_files_processed = 3\<rparr>,
      w\<lparr>objects := (objects w)
             ((Some ''b'', Some ''Answer_Scripts_Zip_Files/E/C/unzipped/a.pdf'') := Some (replicate 1024 0),
              (Some ''b'', Some ''Answer_Scripts_Zip_Files/E/C/unzipped/b.xlsx'') := Some (replicate 2048 0),
              (Some ''b'', Some ''Answer_Scripts_Zip_Files/E/C/unzipped/c.pdf'') := Some (replicate 1024 0)),
         clock := Suc (clock w),
         jobs := update_first (filter_matches (VStr ''J1''))
                   (set_fields [(''progress'', VInt 40),
                      (''updatedOn_KJUSYSCommon_DateTime'', VInt (1000 + int (clock w)))]) (jobs w),
         trace := trace w @
           [S3Put (Some ''b'') ''Answer_Scripts_Zip_Files/E/C/unzipped/a.pdf'' (replicate 1024 0)
              (Some ''application/pdf''),
            S3Put (Some ''b'') ''Answer_Scripts_Zip_Files/E/C/unzipped/b.xlsx'' (replicate 2048 0)
              (Some ''application/vnd.openxmlformats-officedocument.spreadsheetml.sheet''),
            S3Put (Some ''b'') ''Answer_Scripts_Zip_Files/E/C/unzipped/c.pdf'' (replicate 1024 0)
              (Some ''application/pdf''),
            DbSet (VStr ''J1'') [(''progress'', VInt 40),
              (''updatedOn_KJUSYSCommon_DateTime'', VInt (1000 + int (clock w)))]]\<rparr>)"
  by (simp add: ten_zip_def process_entry_def names_facts endswith_def is_valid_pdf_def
        is_valid_excel_def put_object_def checkpoint_def get_ist_millis_def update_one_set_def
        sample_env_def make_frame_def direct_descriptor_def init_acc_def Let_def oval_def
        py_str_def)

lemma ten_zip_extraction:
  "fst (extraction (sample_env ten_zip out) direct_descriptor w) =
     Inr (make_frame direct_descriptor ten_zip,
          \<lparr>pdf_files = [pdf_item (make_frame direct_descriptor ten_zip) ''a.pdf'' 1024,
                         pdf_item (make_frame direct_descriptor ten_zip) ''c.pdf'' 1024],
           excel_file = Some (excel_item (make_frame direct_descriptor ten_zip) ''b.xlsx'' 2048),
           other_files = [], skipped_files = [], valid_files_processed = 3\<rparr>)"
  "progress_writes (trace (snd (extraction (sample_env ten_zip out) direct_descriptor w)))
     = progress_writes (trace w) @ [40]"
  "status_writes (trace (snd (extraction (sample_env ten_zip out) direct_descriptor w)))
     = status_writes (trace w)"
  by (simp_all add: extraction_def get_object_def ten_zip_loop Let_def)

lemma direct_descriptor_simps [simp]:
  "jobId direct_descriptor = Some ''J1''" "s3Bucket direct_descriptor = Some ''b''"
  "s3Key direct_descriptor = Some ''in/a.zip''" "examCode direct_descriptor = Some ''E''"
  "courseCode direct_descriptor = Some ''C''"
  by (simp_all add: direct_descriptor_def)

lemma invoke_validated:
  "fst (invoke_lambda2_sync (sample_env zf validated) pl w) =
     L2Success \<lparr>statusCode = Some (Some 200), error_field = None, errorMessage = None\<rparr>"
  by (simp add: invoke_lambda2_sync_def validated_def get_default_def)

lemma invoke_validated_eq:
  "invoke_lambda2_sync (sample_env zf validated) pl w =
     (L2Success \<lparr>statusCode = Some (Some 200), error_field = None, errorMessage = None\<rparr>,
      w\<lparr>trace := trace w @ [Invoke ''ValidateExcelFunction'' pl]\<rparr>)"
  by (simp add: invoke_lambda2_sync_def validated_def get_default_def)

lemma invoke_bad_header_eq:
  "invoke_lambda2_sync (sample_env zf bad_header) pl w =
     (L2Failure (Some ''bad header''),
      w\<lparr>trace := trace w @ [Invoke ''ValidateExcelFunction'' pl]\<rparr>)"
  by (simp add: invoke_lambda2_sync_def bad_header_def get_default_def)

lemma invoke_bad_header:
  "fst (invoke_lambda2_sync (sample_env zf bad_header) pl w) = L2Failure (Some ''bad header'')"
  by (simp add: invoke_lambda2_sync_def bad_header_def get_default_def)

lemma ten_zip_run:
  "fst (lambda_handler (sample_env ten_zip validated) direct_event world0) =
     Inr \<lparr>res_statusCode = 200, res_jobId = Some ''J1'', res_status = ''SUCCESS'', res_error = None\<rparr>"
  "progress_writes (trace (snd (lambda_handler (sample_env ten_zip validated) direct_event world0)))
     = [0, 10, 40, 40]"
proof -
  let ?E = "sample_env ten_zip validated"
  obtain w1 where sj: "start_job ?E direct_descriptor world0 = (Inr (), w1)"
    using start_job_ok[of ?E direct_descriptor world0]
    by (cases "start_job ?E direct_descriptor world0") simp
  have w1: "w1 = snd (start_job ?E direct_descriptor world0)"
    by (simp add: sj)
  let ?fr = "make_frame direct_descriptor ten_zip"
  let ?a = "\<lparr>pdf_files = [pdf_item ?fr ''a.pdf'' 1024, pdf_item ?fr ''c.pdf'' 1024],
           excel_file = Some (excel_item ?fr ''b.xlsx'' 2048),
           other_files = [], skipped_files = [], valid_files_processed = 3\<rparr>"
  obtain x w2 where ex: "extraction ?E direct_descriptor w1 = (x, w2)"
    by (cases "extraction ?E direct_descriptor w1")
  have x: "x = Inr (?fr, ?a)"
    using ten_zip_extraction(1)[of validated w1] ex by simp
  have p2: "progress_writes (trace w2) = [0, 10, 40]"
    using ten_zip_extraction(2)[of validated w1] ex unfolding w1
    by (simp add: start_job_def get_ist_millis_def world0_def update_one_set_ok update_one_upsert_ok)
  have hb: "handler_body ?E direct_descriptor world0
              = validate_and_complete ?E direct_descriptor ?fr ?a w2"
    by (simp add: handler_body_def sj ex x)
  have vc1: "fst (validate_and_complete ?E direct_descriptor ?fr ?a w2) =
     Inr \<lparr>res_statusCode = 200, res_jobId = Some ''J1'', res_status = ''SUCCESS'', res_error = None\<rparr>"
    by (simp add: validate_and_complete_def invoke_validated_eq get_ist_millis_def Let_def
          update_one_set_ok delete_zip_file_def)
  have vc2: "progress_writes (trace (snd (validate_and_complete ?E direct_descriptor ?fr ?a w2)))
      = [0, 10, 40, 40]"
    using p2
    by (simp add: validate_and_complete_def invoke_validated_eq get_ist_millis_def
          delete_zip_file_def Let_def update_one_set_ok)
  show "fst (lambda_handler ?E direct_event world0) =
     Inr \<lparr>res_statusCode = 200, res_jobId = Some ''J1'', res_status = ''SUCCESS'', res_error = None\<rparr>"
    by (simp add: lambda_handler_def direct_event_parse hb split_def vc1 split: sum.splits)
  show "progress_writes (trace (snd (lambda_handler ?E direct_event world0))) = [0, 10, 40, 40]"
    by (simp add: lambda_handler_def direct_event_parse hb split_def vc1 vc2)
qed

lemma ten_zip_extraction_more:
  "clock (snd (extraction (sample_env ten_zip out) direct_descriptor w)) = Suc (clock w)"
  "filter (\<lambda>x. \<not> sets_updated_on x)
      (trace (snd (extraction (sample_env ten_zip out) direct_descriptor w)))
     = filter (\<lambda>x. \<not> sets_updated_on x) (trace w)"
  by (simp_all add: extraction_def get_object_def ten_zip_loop Let_def)

lemma ten_zip_run_unstamped:
  "filter (\<lambda>x. \<not> sets_updated_on x)
      (trace (snd (lambda_handler (sample_env ten_zip validated) direct_event world0)))
     = [DbSet (VStr ''J1'') [(''originalZipDeleted'', VBool True),
                             (''zipDeletedAt_KJUSYSCommon_DateTime'', VInt 1003)]]"
proof -
  let ?E = "sample_env ten_zip validated"
  obtain w1 where sj: "start_job ?E direct_descriptor world0 = (Inr (), w1)"
    using start_job_ok[of ?E direct_descriptor world0]
    by (cases "start_job ?E direct_descriptor world0") simp
  have w1: "w1 = snd (start_job ?E direct_descriptor world0)"
    by (simp add: sj)
  let ?fr = "make_frame direct_descriptor ten_zip"
  let ?a = "\<lparr>pdf_files = [pdf_item ?fr ''a.pdf'' 1024, pdf_item ?fr ''c.pdf'' 1024],
           excel_file = Some (excel_item ?fr ''b.xlsx'' 2048),
           other_files = [], skipped_files = [], valid_files_processed = 3\<rparr>"
  obtain x w2 where ex: "extraction ?E direct_descriptor w1 = (x, w2)"
    by (cases "extraction ?E direct_descriptor w1")
  have x: "x = Inr (?fr, ?a)"
    using ten_zip_extraction(1)[of validated w1] ex by simp
  have c2: "clock w2 = 2"
    using ten_zip_extraction_more(1)[of validated w1] ex unfolding w1
    by (simp add: start_job_def get_ist_millis_def world0_def update_one_set_ok update_one_upsert_ok)
  have f2: "filter (\<lambda>x. \<not> sets_updated_on x) (trace w2) = []"
    using ten_zip_extraction_more(2)[of validated w1] ex unfolding w1
    by (simp add: start_job_def get_ist_millis_def world0_def update_one_set_ok update_one_upsert_ok)
  have hb: "handler_body ?E direct_descriptor world0
              = validate_and_complete ?E direct_descriptor ?fr ?a w2"
    by (simp add: handler_body_def sj ex x)
  have vc1: "fst (validate_and_complete ?E direct_descriptor ?fr ?a w2) =
     Inr \<lparr>res_statusCode = 200, res_jobId = Some ''J1'', res_status = ''SUCCESS'', res_error = None\<rparr>"
    by (simp add: validate_and_complete_def invoke_validated_eq get_ist_millis_def Let_def
          update_one_set_ok delete_zip_file_def)
  have vc3: "filter (\<lambda>x. \<not> sets_updated_on x)
        (trace (snd (validate_and_complete ?E direct_descriptor ?fr ?a w2)))
      = [DbSet (VStr ''J1'') [(''originalZipDeleted'', VBool True),
                             (''zipDeletedAt_KJUSYSCommon_DateTime'', VInt 1003)]]"
    using f2 c2
    by (simp add: validate_and_complete_def invoke_validated_eq get_ist_millis_def
          delete_zip_file_def Let_def oval_def update_one_set_ok)
  show ?thesis
    by (simp add: lambda_handler_def direct_event_parse hb split_def vc1 vc3)
qed


lemma more_names_facts:
  "\<not> is_junk_file ''a.xlsx''" "lower ''a.xlsx'' = ''a.xlsx''" "is_junk_file ''.DS_Store''"
  by code_simp+


lemma two_sheets_loop:
  "extract_loop (sample_env two_sheets_zip validated) (make_frame direct_descriptor two_sheets_zip) 0
       (namelist two_sheets_zip) init_acc world0
   = (Inr \<lparr>pdf_files = [],
           excel_file = Some (excel_item (make_frame direct_descriptor two_sheets_zip) ''a.xlsx'' 2048),
           other_files = [],
           skipped_files = [skip_record ''b.xlsx'' ''Duplicate''],
           valid_files_processed = 1\<rparr>,
      world0\<lparr>objects := (objects world0)
             ((Some ''b'', Some ''Answer_Scripts_Zip_Files/E/C/unzipped/a.xlsx'') := Some (replicate 2048 0),
              (Some ''b'', Some ''Answer_Scripts_Zip_Files/E/C/unzipped/b.xlsx'') := Some (replicate 2048 0)),
         trace :=
           [S3Put (Some ''b'') ''Answer_Scripts_Zip_Files/E/C/unzipped/a.xlsx'' (replicate 2048 0)
              (Some ''application/vnd.openxmlformats-officedocument.spreadsheetml.sheet''),
            S3Put (Some ''b'') ''Answer_Scripts_Zip_Files/E/C/unzipped/b.xlsx'' (replicate 2048 0)
              (Some ''application/vnd.openxmlformats-officedocument.spreadsheetml.sheet'')]\<rparr>)"
  by (simp add: two_sheets_zip_def process_entry_def names_facts more_names_facts endswith_def
        is_valid_excel_def put_object_def checkpoint_def skipped_def
        sample_env_def make_frame_def direct_descriptor_def init_acc_def Let_def world0_def
        py_str_def update_one_set_def)

lemma zip_file_make_frame [simp]: "zip_file (make_frame d zf) = zf"
  by (simp add: make_frame_def)

lemma two_sheets_qualifying:
  "filter (qualifying_spreadsheet two_sheets_zip) (namelist two_sheets_zip) = [''a.xlsx'', ''b.xlsx'']"
  by (simp add: qualifying_spreadsheet_def two_sheets_zip_def names_facts more_names_facts
                endswith_def)


lemma junk_sheet_facts:
  "\<not> is_junk_file ''marks.xlsx''" "is_junk_file ''._marks.xlsx''"
  "lower ''marks.xlsx'' = ''marks.xlsx''" "lower ''._marks.xlsx'' = ''._marks.xlsx''"
  by code_simp+


lemma same_name_facts:
  "\<not> is_junk_file ''x/s.pdf''" "\<not> is_junk_file ''y/s.pdf''" "lower ''s.pdf'' = ''s.pdf''"
  by code_simp+

lemma same_name_basenames:
  "basename ''x/s.pdf'' = ''s.pdf''" "basename ''y/s.pdf'' = ''s.pdf''"
  by (simp_all add: basename_def)

lemma same_name_accepted:
  "accepted_pdf same_name_zip ''x/s.pdf''" "accepted_pdf same_name_zip ''y/s.pdf''"
  by (simp_all add: accepted_pdf_def same_name_zip_def same_name_facts same_name_basenames
                    endswith_def)

lemma same_name_loop:
  "fst (extract_loop (sample_env same_name_zip validated)
         (make_frame direct_descriptor same_name_zip) 0 [''x/s.pdf'', ''y/s.pdf''] init_acc world0)
   = Inr \<lparr>pdf_files = [pdf_item (make_frame direct_descriptor same_name_zip) ''s.pdf'' 1024,
                         pdf_item (make_frame direct_descriptor same_name_zip) ''s.pdf'' 1025],
           excel_file = None, other_files = [], skipped_files = [], valid_files_processed = 2\<rparr>"
  by (simp add: same_name_zip_def process_entry_def same_name_facts same_name_basenames
        endswith_def is_valid_pdf_def put_object_def checkpoint_def
        sample_env_def make_frame_def direct_descriptor_def init_acc_def Let_def world0_def
        py_str_def update_one_set_def)


section \<open>Archives without a spreadsheet\<close>

lemma process_entry_small_pdf:
  assumes "endswith file_name ''/'' \<or>
           (endswith (lower (basename file_name)) ''.pdf'' \<and>
            (\<exists>body. zread (zip_file fr) file_name = Inr body \<and> length body < 1024))"
  shows "\<exists>a'. process_entry e fr idx file_name a w = (Inr a', w)
            \<and> excel_file a' = excel_file a \<and> pdf_files a' = pdf_files a"
  using assms
  by (auto simp: process_entry_def Let_def is_valid_pdf_def skipped_def)

lemma extract_loop_small_pdfs:
  assumes "\<forall>n\<in>set names. endswith n ''/'' \<or>
           (endswith (lower (basename n)) ''.pdf'' \<and>
            (\<exists>body. zread (zip_file fr) n = Inr body \<and> length body < 1024))"
  shows "\<exists>a'. extract_loop e fr idx names a w = (Inr a', w)
            \<and> excel_file a' = excel_file a \<and> pdf_files a' = pdf_files a"
  using assms
proof (induction names arbitrary: idx a)
  case Nil
  then show ?case by simp
next
  case (Cons n names)
  from Cons.prems have "endswith n ''/'' \<or>
           (endswith (lower (basename n)) ''.pdf'' \<and>
            (\<exists>body. zread (zip_file fr) n = Inr body \<and> length body < 1024))" by simp
  from process_entry_small_pdf[OF this, of e idx a w] obtain a1 where
    a1: "process_entry e fr idx n a w = (Inr a1, w)" "excel_file a1 = excel_file a"
        "pdf_files a1 = pdf_files a" by blast
  from Cons.prems have "\<forall>n\<in>set names. endswith n ''/'' \<or>
           (endswith (lower (basename n)) ''.pdf'' \<and>
            (\<exists>body. zread (zip_file fr) n = Inr body \<and> length body < 1024))" by simp
  from Cons.IH[OF this, of "Suc idx" a1] a1 show ?case by auto
qed

lemma no_excel_run:
  assumes store: "store_ok e"
      and parse: "parse_step e ev = Inr d"
      and get: "s3_get e (s3Bucket d) (s3Key d) = Inr zb"
      and opn: "open_zip e zb = Inr zf"
      and small: "\<forall>n\<in>set (namelist zf). endswith n ''/'' \<or>
           (endswith (lower (basename n)) ''.pdf'' \<and>
            (\<exists>body. zread zf n = Inr body \<and> length body < 1024))"
      and run: "lambda_handler e ev w = (out, w')"
  shows "out = Inr \<lparr>res_statusCode = 500, res_jobId = jobId d, res_status = ''FAILED'',
               res_error = Some ''No Excel file found''\<rparr>
       \<and> (\<exists>doc. find_job (oval (jobId d)) (jobs w') = Some doc
              \<and> map_of doc ''status'' = Some (VStr ''FAILED'')
              \<and> map_of doc ''error'' = Some (VStr ''No Excel file found''))"
proof -
  let ?j = "oval (jobId d)"
  obtain w0 where sj: "start_job e d w = (Inr (), w0)"
    using start_job_ok[OF store, of d w] by (cases "start_job e d w") simp
  from start_job_cases[OF sj] have hj0: "has_job ?j w0" by auto
  let ?w1 = "w0\<lparr>trace := trace w0 @ [S3Get (s3Bucket d) (s3Key d)]\<rparr>"
  have small': "\<forall>n\<in>set (namelist zf). endswith n ''/'' \<or>
           (endswith (lower (basename n)) ''.pdf'' \<and>
            (\<exists>body. zread (zip_file (make_frame d zf)) n = Inr body \<and> length body < 1024))"
    using small by (simp add: make_frame_def)
  from extract_loop_small_pdfs[OF small', of e 0 init_acc ?w1] obtain a' where
    l: "extract_loop e (make_frame d zf) 0 (namelist zf) init_acc ?w1 = (Inr a', ?w1)"
       "excel_file a' = None"
    by (auto simp: init_acc_def)
  have ex: "extraction e d w0 = (Inl ''No Excel file found'', ?w1)"
    by (simp add: extraction_def get_object_def get opn l Let_def)
  have hb: "handler_body e d w = (Inl ''No Excel file found'', ?w1)"
    by (simp add: handler_body_def sj ex)
  have r: "out = Inr \<lparr>res_statusCode = 500, res_jobId = jobId d, res_status = ''FAILED'',
               res_error = Some ''No Excel file found''\<rparr>"
    and w': "w' = stored_set ?j
        [(''status'', VStr ''FAILED''), (''error'', VStr ''No Excel file found''),
         (''updatedOn_KJUSYSCommon_DateTime'', VInt (ist_clock e (clock ?w1)))]
        (?w1\<lparr>clock := Suc (clock ?w1)\<rparr>)"
    using run by (simp_all add: lambda_handler_def parse hb failure_boundary_ok[OF store])
  have hj: "has_job ?j (?w1\<lparr>clock := Suc (clock ?w1)\<rparr>)"
    using hj0 by simp
  from find_job_stored_set[OF hj, of "[(''status'', VStr ''FAILED''),
         (''error'', VStr ''No Excel file found''),
         (''updatedOn_KJUSYSCommon_DateTime'', VInt (ist_clock e (clock ?w1)))]"]
  obtain doc where "find_job ?j (jobs w') = Some doc"
     "map_of doc ''status'' = Some (VStr ''FAILED'')"
     "map_of doc ''error'' = Some (VStr ''No Excel file found'')"
    unfolding w' by auto
  with r show ?thesis by blast
qed


lemma tiny_facts: "lower ''tiny.pdf'' = ''tiny.pdf''"
  by code_simp

lemma tiny_zip_small:
  "\<forall>n\<in>set (namelist tiny_zip). endswith n ''/'' \<or> n = ''tiny.pdf''"
  "endswith (lower (basename ''tiny.pdf'')) ''.pdf''"
  "zread tiny_zip ''tiny.pdf'' = Inr (replicate 500 0)"
  by (simp_all add: tiny_zip_def tiny_facts endswith_def)


section \<open>Spreadsheets in the loop\<close>

lemma junk_directory: "endswith n ''/'' \<Longrightarrow> is_junk_file n"
proof -
  assume "endswith n ''/''"
  then obtain r where "rev n = CHR ''/'' # r"
    by (cases "rev n") (auto simp: endswith_def)
  then have "basename n = []" by (simp add: basename_def)
  then show ?thesis by (simp add: is_junk_file_def)
qed

lemma spreadsheet_not_pdf:
  "endswith s ''.xlsx'' \<or> endswith s ''.xls'' \<Longrightarrow> \<not> endswith s ''.pdf''"
  by (cases "rev s") (auto simp: endswith_def)

lemma checkpoint_Inr: "checkpoint e fr idx a w = (Inr a1, w1) \<Longrightarrow> a1 = a"
  using checkpoint_result[of e fr idx a w "Inr a1" w1] by simp

lemma process_entry_qualifying:
  assumes q: "qualifying_spreadsheet (zip_file fr) n"
      and pe: "process_entry e fr idx n a w = (Inr a1, w1)"
  shows "a1 = (if excel_file a = None
               then a\<lparr>excel_file := Some (excel_item fr (basename n) (entry_size (zip_file fr) n)),
                      valid_files_processed := valid_files_processed a + 1\<rparr>
               else skipped a (basename n) ''Duplicate'')"
proof -
  from q obtain body where b: "zread (zip_file fr) n = Inr body"
      "endswith (lower (basename n)) ''.xlsx'' \<or> endswith (lower (basename n)) ''.xls''"
      "2048 \<le> length body" and nj: "\<not> is_junk_file n"
    by (auto simp: qualifying_spreadsheet_def split: sum.splits)
  from nj have nd: "\<not> endswith n ''/''" using junk_directory by blast
  from b(2) have np: "\<not> endswith (lower (basename n)) ''.pdf''" by (rule spreadsheet_not_pdf)
  from b(3) have ne: "length body \<noteq> 0" by auto
  have ve: "is_valid_excel (basename n) (length body)"
    using b(2,3) by (simp add: is_valid_excel_def Let_def)
  have es: "entry_size (zip_file fr) n = length body" by (simp add: entry_size_def b(1))
  from pe show ?thesis
    unfolding process_entry_def
    using nd nj b(1) np ne ve b(2) es
    by (auto simp: Let_def split: prod.splits sum.splits if_splits dest: checkpoint_Inr)
qed

lemma process_entry_not_qualifying:
  assumes nq: "\<not> qualifying_spreadsheet (zip_file fr) n"
      and pe: "process_entry e fr idx n a w = (Inr a1, w1)"
  shows "excel_file a1 = excel_file a \<and> (\<exists>new. skipped_files a1 = skipped_files a @ new)"
  using pe nq
  unfolding process_entry_def qualifying_spreadsheet_def
  by (auto simp: Let_def skipped_def is_valid_excel_def
           split: prod.splits sum.splits if_splits dest!: checkpoint_Inr)

lemma extract_loop_spreadsheets:
  assumes "extract_loop e fr idx names a w = (Inr a', w')"
  shows "excel_file a' =
           (case excel_file a of
              Some x \<Rightarrow> Some x
            | None \<Rightarrow>
                (case filter (qualifying_spreadsheet (zip_file fr)) names of
                   [] \<Rightarrow> None
                 | q # qs \<Rightarrow> Some (excel_item fr (basename q) (entry_size (zip_file fr) q))))
       \<and> (\<exists>new. skipped_files a' = skipped_files a @ new
              \<and> subseq (map duplicate_record
                          (if excel_file a = None
                           then tl (filter (qualifying_spreadsheet (zip_file fr)) names)
                           else filter (qualifying_spreadsheet (zip_file fr)) names)) new)"
  using assms
proof (induction names arbitrary: idx a w)
  case Nil
  then show ?case by (auto split: option.splits)
next
  case (Cons n names)
  let ?Q = "qualifying_spreadsheet (zip_file fr)"
  obtain r1 w1 where pe0: "process_entry e fr idx n a w = (r1, w1)"
    by (cases "process_entry e fr idx n a w")
  with Cons.prems obtain a1 where pe: "process_entry e fr idx n a w = (Inr a1, w1)"
      and rest: "extract_loop e fr (Suc idx) names a1 w1 = (Inr a', w')"
    by (cases r1) auto
  note IH = Cons.IH[OF rest]
  show ?case
  proof (cases "?Q n")
    case True
    note a1 = process_entry_qualifying[OF True pe]
    show ?thesis
    proof (cases "excel_file a")
      case None
      with a1 have e1: "excel_file a1 = Some (excel_item fr (basename n) (entry_size (zip_file fr) n))"
        and s1: "skipped_files a1 = skipped_files a" by simp_all
      from IH e1 s1 None True show ?thesis by auto
    next
      case (Some x)
      with a1 have e1: "excel_file a1 = Some x"
        and s1: "skipped_files a1 = skipped_files a @ [duplicate_record n]"
        by (simp_all add: skipped_def duplicate_record_def)
      from IH e1 obtain new where
        n: "skipped_files a' = skipped_files a1 @ new" "subseq (map duplicate_record (filter ?Q names)) new"
           "excel_file a' = Some x"
        by auto
      have "skipped_files a' = skipped_files a @ (duplicate_record n # new)" using n(1) s1 by simp
      moreover have "subseq (map duplicate_record (filter ?Q (n # names))) (duplicate_record n # new)"
        using n(2) True by simp
      ultimately show ?thesis using n(3) Some by auto
    qed
  next
    case False
    from process_entry_not_qualifying[OF False pe] obtain new1 where
      e1: "excel_file a1 = excel_file a" and s1: "skipped_files a1 = skipped_files a @ new1"
      by blast
    have f: "filter ?Q (n # names) = filter ?Q names" using False by simp
    from IH obtain new where
      n: "skipped_files a' = skipped_files a1 @ new"
         "subseq (map duplicate_record
                          (if excel_file a1 = None then tl (filter ?Q names) else filter ?Q names)) new"
      by blast
    from IH have x: "excel_file a' =
           (case excel_file a1 of
              Some x \<Rightarrow> Some x
            | None \<Rightarrow>
                (case filter ?Q names of
                   [] \<Rightarrow> None
                 | q # qs \<Rightarrow> Some (excel_item fr (basename q) (entry_size (zip_file fr) q))))"
      by blast
    have 1: "skipped_files a' = skipped_files a @ (new1 @ new)" using n(1) s1 by simp
    have "subseq (map duplicate_record
                          (if excel_file a = None then tl (filter ?Q names) else filter ?Q names)) new"
      using n(2) unfolding e1 .
    then have 2: "subseq (map duplicate_record
                          (if excel_file a = None then tl (filter ?Q names) else filter ?Q names))
                   (new1 @ new)"
      by (rule list_emb_append2)
    from x 1 2 show ?thesis unfolding f e1 by blast
  qed
qed


section \<open>PDFs in the loop, and the loop over a concatenation\<close>

lemma checkpoint_objects:
  "checkpoint e fr idx a w = (r, w1) \<Longrightarrow> objects w1 = objects w"
  by (auto simp: checkpoint_def get_ist_millis_def Let_def split: if_splits prod.splits sum.splits
           dest!: update_one_set_world)

lemma checkpoint_extends:
  "checkpoint e fr idx a w = (r, w1) \<Longrightarrow> \<exists>ops. trace w1 = trace w @ ops"
  by (auto simp: checkpoint_def get_ist_millis_def Let_def split: if_splits prod.splits sum.splits
           dest!: update_one_set_world)

lemma process_entry_accepted_pdf:
  assumes acc: "accepted_pdf (zip_file fr) n"
      and body: "zread (zip_file fr) n = Inr body"
      and pe: "process_entry e fr idx n a w = (Inr a1, w1)"
  shows "pdf_files a1 = pdf_files a @ [pdf_item fr (basename n) (length body)]
       \<and> objects w1 (bucket fr, Some (unzip_prefix fr @ basename n)) = Some body
       \<and> (\<exists>ops. trace w1 = trace w @
              S3Put (bucket fr) (unzip_prefix fr @ basename n) body (Some ''application/pdf'') # ops)"
proof -
  from acc body have nj: "\<not> is_junk_file n" and ext: "endswith (lower (basename n)) ''.pdf''"
    and sz: "1024 \<le> length body"
    by (auto simp: accepted_pdf_def)
  from nj have nd: "\<not> endswith n ''/''" using junk_directory by blast
  from sz have ne: "length body \<noteq> 0" by auto
  have vp: "is_valid_pdf (basename n) (length body)" using ext sz by (simp add: is_valid_pdf_def)
  let ?k = "unzip_prefix fr @ basename n"
  obtain u w2 where put: "put_object e (bucket fr) ?k body (Some ''application/pdf'') w = (u, w2)"
    by (cases "put_object e (bucket fr) ?k body (Some ''application/pdf'') w")
  from pe nd nj body ne ext vp put
  have cp: "u = Inr () \<and> checkpoint e fr idx
                (a\<lparr>pdf_files := pdf_files a @ [pdf_item fr (basename n) (length body)],
                   valid_files_processed := valid_files_processed a + 1\<rparr>) w2 = (Inr a1, w1)"
    by (cases u) (simp_all add: process_entry_def Let_def)
  then have a1: "a1 = a\<lparr>pdf_files := pdf_files a @ [pdf_item fr (basename n) (length body)],
                   valid_files_processed := valid_files_processed a + 1\<rparr>"
    using checkpoint_Inr by blast
  from put cp have o2: "objects w2 (bucket fr, Some ?k) = Some body"
    by (auto simp: put_object_def Let_def split: option.splits)
  from cp have o1: "objects w1 = objects w2" using checkpoint_objects by blast
  from put_object_world[OF put] have t2: "trace w2 = trace w @ [S3Put (bucket fr) ?k body (Some ''application/pdf'')]"
    by simp
  from cp have "\<exists>ops. trace w1 = trace w2 @ ops" using checkpoint_extends by blast
  with t2 have "\<exists>ops. trace w1 = trace w @
              S3Put (bucket fr) ?k body (Some ''application/pdf'') # ops" by auto
  with a1 o1 o2 show ?thesis by simp
qed

lemma process_entry_pdf_growth:
  assumes "process_entry e fr idx n a w = (Inr a1, w1)"
  shows "\<exists>new. pdf_files a1 = pdf_files a @ new"
  using assms
  unfolding process_entry_def
  by (auto simp: Let_def skipped_def split: prod.splits sum.splits if_splits dest!: checkpoint_Inr)

lemma extract_loop_growth:
  assumes "extract_loop e fr idx names a w = (Inr a', w')"
  shows "(\<exists>new. pdf_files a' = pdf_files a @ new) \<and> (\<exists>ops. trace w' = trace w @ ops)"
  using assms
proof (induction names arbitrary: idx a w)
  case Nil
  then show ?case by simp
next
  case (Cons n names)
  obtain r1 w1 where pe0: "process_entry e fr idx n a w = (r1, w1)"
    by (cases "process_entry e fr idx n a w")
  with Cons.prems obtain a1 where pe: "process_entry e fr idx n a w = (Inr a1, w1)"
      and rest: "extract_loop e fr (Suc idx) names a1 w1 = (Inr a', w')"
    by (cases r1) auto
  from process_entry_pdf_growth[OF pe] obtain new1 where 1: "pdf_files a1 = pdf_files a @ new1"
    by blast
  from process_entry_ops[OF pe] obtain ops1 where 2: "trace w1 = trace w @ ops1" by blast
  from Cons.IH[OF rest] obtain new2 ops2 where
    3: "pdf_files a' = pdf_files a1 @ new2" "trace w' = trace w1 @ ops2" by blast
  from 1 2 3 have "pdf_files a' = pdf_files a @ (new1 @ new2)" "trace w' = trace w @ (ops1 @ ops2)"
    by simp_all
  then show ?case by blast
qed

lemma extract_loop_append:
  "extract_loop e fr idx (xs @ ys) a w =
     (case extract_loop e fr idx xs a w of
        (Inl err, w1) \<Rightarrow> (Inl err, w1)
      | (Inr a1, w1) \<Rightarrow> extract_loop e fr (idx + length xs) ys a1 w1)"
  by (induction xs arbitrary: idx a w) (auto split: prod.splits sum.splits)

lemma extract_loop_split:
  assumes "extract_loop e fr idx (xs @ ys) a w = (Inr a', w')"
  shows "\<exists>a1 w1. extract_loop e fr idx xs a w = (Inr a1, w1)
           \<and> extract_loop e fr (idx + length xs) ys a1 w1 = (Inr a', w')"
  using assms unfolding extract_loop_append
  by (auto split: prod.splits sum.splits)

lemma extract_loop_head:
  assumes "extract_loop e fr idx (n # ys) a w = (Inr a', w')"
  shows "\<exists>a1 w1. process_entry e fr idx n a w = (Inr a1, w1)
           \<and> extract_loop e fr (Suc idx) ys a1 w1 = (Inr a', w')"
  using assms by (auto split: prod.splits sum.splits)

section \<open>An archive with one small PDF\<close>

text \<open>
  Claim C1, as amended. When the only entry of the archive that is not a directory marker
  is a file with the extension \<open>.pdf\<close> and 500 bytes, and the document store accepts
  every update, the handler returns the failure result with the error
  \<open>No Excel file found\<close> (the spreadsheet is checked before the PDFs), and the record ends
  with status \<open>FAILED\<close> and this error.
\<close>

theorem lone_small_pdf_fails_on_excel:
  assumes "store_ok e"
      and "parse_step e ev = Inr d"
      and "s3_get e (s3Bucket d) (s3Key d) = Inr zb"
      and "open_zip e zb = Inr zf"
      and "pdf_name \<in> set (namelist zf)"
      and "\<forall>n\<in>set (namelist zf). endswith n ''/'' \<or> n = pdf_name"
      and "endswith (lower (basename pdf_name)) ''.pdf''"
      and "zread zf pdf_name = Inr body"
      and "length body = 500"
      and "lambda_handler e ev w = (out, w')"
  shows "out = Inr \<lparr>res_statusCode = 500, res_jobId = jobId d, res_status = ''FAILED'',
               res_error = Some ''No Excel file found''\<rparr>
       \<and> (\<exists>doc. find_job (oval (jobId d)) (jobs w') = Some doc
              \<and> map_of doc ''status'' = Some (VStr ''FAILED'')
              \<and> map_of doc ''error'' = Some (VStr ''No Excel file found''))"
proof -
  have "\<forall>n\<in>set (namelist zf). endswith n ''/'' \<or>
           (endswith (lower (basename n)) ''.pdf'' \<and>
            (\<exists>body. zread zf n = Inr body \<and> length body < 1024))"
    using assms(6,7,8,9) by auto
  from no_excel_run[OF assms(1,2,3,4) this assms(10)] show ?thesis .
qed


theorem lone_small_pdf_fails_on_excel_witness:
  "store_ok (sample_env tiny_zip validated)
   \<and> parse_step (sample_env tiny_zip validated) direct_event = Inr direct_descriptor
   \<and> s3_get (sample_env tiny_zip validated) (s3Bucket direct_descriptor) (s3Key direct_descriptor)
       = Inr []
   \<and> open_zip (sample_env tiny_zip validated) [] = Inr tiny_zip
   \<and> ''tiny.pdf'' \<in> set (namelist tiny_zip)
   \<and> list_all (\<lambda>n. endswith n ''/'' \<or> n = ''tiny.pdf'') (namelist tiny_zip)
   \<and> endswith (lower (basename ''tiny.pdf'')) ''.pdf''
   \<and> zread tiny_zip ''tiny.pdf'' = Inr (replicate 500 0)
   \<and> length (replicate 500 (0::8 word)) = 500
   \<and> fst (lambda_handler (sample_env tiny_zip validated) direct_event world0)
       = Inr \<lparr>res_statusCode = 500, res_jobId = Some ''J1'', res_status = ''FAILED'',
          res_error = Some ''No Excel file found''\<rparr>"
proof -
  let ?E = "sample_env tiny_zip validated"
  have run: "lambda_handler ?E direct_event world0
               = (fst (lambda_handler ?E direct_event world0),
                  snd (lambda_handler ?E direct_event world0))"
    by simp
  have mem: "''tiny.pdf'' \<in> set (namelist tiny_zip)" by (simp add: tiny_zip_def)
  have parse: "parse_step ?E direct_event = Inr direct_descriptor" by (rule direct_event_parse)
  have get: "s3_get ?E (s3Bucket direct_descriptor) (s3Key direct_descriptor) = Inr []" by simp
  have opn: "open_zip ?E [] = Inr tiny_zip" by simp
  have len: "length (replicate 500 (0::8 word)) = 500" by simp
  have store: "store_ok ?E" by simp
  from lone_small_pdf_fails_on_excel[OF store parse get opn mem tiny_zip_small len run]
  have "fst (lambda_handler ?E direct_event world0)
       = Inr \<lparr>res_statusCode = 500, res_jobId = jobId direct_descriptor, res_status = ''FAILED'',
          res_error = Some ''No Excel file found''\<rparr>"
    by simp
  with mem tiny_zip_small parse get opn store show ?thesis
    by (simp add: list_all_iff)
qed


text \<open>
  The claim as stated fails: for the archive with the single entry \<open>tiny.pdf\<close> the error
  is not \<open>No PDF files found\<close>.
\<close>

theorem lone_small_pdf_counterexample:
  "namelist tiny_zip = [''tiny.pdf'']
   \<and> zread tiny_zip ''tiny.pdf'' = Inr (replicate 500 0)
   \<and> fst (lambda_handler (sample_env tiny_zip validated) direct_event world0)
       = Inr \<lparr>res_statusCode = 500, res_jobId = Some ''J1'', res_status = ''FAILED'',
              res_error = Some ''No Excel file found''\<rparr>
   \<and> res_error (projr (fst (lambda_handler (sample_env tiny_zip validated) direct_event world0)))
       \<noteq> Some ''No PDF files found''"
proof -
  let ?E = "sample_env tiny_zip validated"
  have run: "lambda_handler ?E direct_event world0
               = (fst (lambda_handler ?E direct_event world0),
                  snd (lambda_handler ?E direct_event world0))"
    by simp
  have small: "\<forall>n\<in>set (namelist tiny_zip). endswith n ''/'' \<or>
           (endswith (lower (basename n)) ''.pdf'' \<and>
            (\<exists>body. zread tiny_zip n = Inr body \<and> length body < 1024))"
    using tiny_zip_small(2) by (simp add: tiny_zip_def)
  have parse: "parse_step ?E direct_event = Inr direct_descriptor" by (rule direct_event_parse)
  have get: "s3_get ?E (s3Bucket direct_descriptor) (s3Key direct_descriptor) = Inr []" by simp
  have opn: "open_zip ?E [] = Inr tiny_zip" by simp
  have store: "store_ok ?E" by simp
  from no_excel_run[OF store parse get opn small run]
  have "fst (lambda_handler ?E direct_event world0)
       = Inr \<lparr>res_statusCode = 500, res_jobId = Some ''J1'', res_status = ''FAILED'',
              res_error = Some ''No Excel file found''\<rparr>"
    by simp
  then show ?thesis by (simp add: tiny_zip_def)
qed

section \<open>The failure boundary\<close>

lemma empty_zip_body:
  "fst (handler_body (sample_env empty_zip out) direct_descriptor world0)
     = Inl ''No Excel file found''"
proof -
  let ?E = "sample_env empty_zip out"
  obtain w1 where sj: "start_job ?E direct_descriptor world0 = (Inr (), w1)"
    using start_job_ok[of ?E direct_descriptor world0]
    by (cases "start_job ?E direct_descriptor world0") simp
  have nl: "namelist empty_zip = []" by (simp add: empty_zip_def)
  show ?thesis
    by (simp add: handler_body_def sj extraction_def get_object_def nl init_acc_def Let_def)
qed

lemma broken_store_simps [simp]:
  "db_error (broken_store_env zf out) n = Some ''store unavailable''"
  "ist_clock (broken_store_env zf out) n = 1000 + int n"
  by (simp_all add: broken_store_env_def sample_env_def)

lemma broken_store_parse:
  "parse_step (broken_store_env zf out) direct_event = Inr direct_descriptor"
  by (simp add: parse_step_def parse_event_def direct_event_def direct_descriptor_def py_or_def
                get_default_def get_field_def)

text \<open>
  Claim C2, as amended. A run of the handler returns the success result, or its last call
  is the update of the \<open>except\<close> clause, which writes status \<open>FAILED\<close> and the text of the
  error; the handler then returns the failure result with status code 500, unless this
  update itself raises: its exception leaves the handler and no result is returned. When
  step 1 has produced a descriptor, every exception of the later steps, those of the
  document store included, is handled in this way against its job identifier, and an
  accepted update stores the status and the error in the first record with that identifier.
  When step 1 itself fails, the same clause runs with the identifier \<open>None\<close>: exactly one
  update is issued, filtered on the null identifier.
\<close>

theorem lambda_handler_failure_boundary:
  assumes "lambda_handler e ev w = (out, w')"
  shows "((\<exists>j. out = Inr \<lparr>res_statusCode = 200, res_jobId = j, res_status = ''SUCCESS'',
                          res_error = None\<rparr>)
          \<or> (\<exists>j err t. trace w' \<noteq> []
                 \<and> last (trace w') = DbSet (oval j)
                      [(''status'', VStr ''FAILED''), (''error'', VStr err),
                       (''updatedOn_KJUSYSCommon_DateTime'', VInt t)]
                 \<and> (out = Inr \<lparr>res_statusCode = 500, res_jobId = j, res_status = ''FAILED'',
                                res_error = Some err\<rparr>
                     \<or> (\<exists>err2. out = Inl err2
                            \<and> db_error e (length (trace w') - 1) = Some err2))))
       \<and> (\<forall>d err w1. parse_step e ev = Inr d \<and> handler_body e d w = (Inl err, w1) \<longrightarrow>
             trace w' = trace w1 @ [DbSet (oval (jobId d))
                      [(''status'', VStr ''FAILED''), (''error'', VStr err),
                       (''updatedOn_KJUSYSCommon_DateTime'', VInt (ist_clock e (clock w1)))]]
             \<and> ((db_error e (length (trace w1)) = None
                  \<and> out = Inr \<lparr>res_statusCode = 500, res_jobId = jobId d,
                                res_status = ''FAILED'', res_error = Some err\<rparr>
                  \<and> jobs w' = update_first (filter_matches (oval (jobId d)))
                       (set_fields [(''status'', VStr ''FAILED''), (''error'', VStr err),
                          (''updatedOn_KJUSYSCommon_DateTime'', VInt (ist_clock e (clock w1)))])
                       (jobs w1))
                 \<or> (\<exists>err2. db_error e (length (trace w1)) = Some err2 \<and> out = Inl err2
                        \<and> jobs w' = jobs w1)))
       \<and> (\<forall>err. parse_step e ev = Inl err \<longrightarrow>
             trace w' = trace w @ [DbSet VNull
                      [(''status'', VStr ''FAILED''), (''error'', VStr err),
                       (''updatedOn_KJUSYSCommon_DateTime'', VInt (ist_clock e (clock w)))]]
             \<and> ((db_error e (length (trace w)) = None
                  \<and> out = Inr \<lparr>res_statusCode = 500, res_jobId = None,
                                res_status = ''FAILED'', res_error = Some err\<rparr>)
                 \<or> (\<exists>err2. db_error e (length (trace w)) = Some err2 \<and> out = Inl err2
                        \<and> jobs w' = jobs w)))"
proof (cases "parse_step e ev")
  case (Inl err)
  with assms have fb: "failure_boundary e None err w = (out, w')"
    by (simp add: lambda_handler_def)
  let ?F = "DbSet (oval None)
                      [(''status'', VStr ''FAILED''), (''error'', VStr err),
                       (''updatedOn_KJUSYSCommon_DateTime'', VInt (ist_clock e (clock w)))]"
  from failure_boundary_cases[OF fb] have
    t: "trace w' = trace w @ [?F]"
    and c: "(out = Inr \<lparr>res_statusCode = 500, res_jobId = None, res_status = ''FAILED'',
                          res_error = Some err\<rparr>
             \<and> db_error e (length (trace w)) = None)
            \<or> (\<exists>err2. out = Inl err2 \<and> db_error e (length (trace w)) = Some err2
                   \<and> jobs w' = jobs w)"
    by auto
  from t have l: "trace w' \<noteq> []" "last (trace w') = ?F" "length (trace w') - 1 = length (trace w)"
    by simp_all
  from c l have A: "\<exists>j err t. trace w' \<noteq> []
                 \<and> last (trace w') = DbSet (oval j)
                      [(''status'', VStr ''FAILED''), (''error'', VStr err),
                       (''updatedOn_KJUSYSCommon_DateTime'', VInt t)]
                 \<and> (out = Inr \<lparr>res_statusCode = 500, res_jobId = j, res_status = ''FAILED'',
                                res_error = Some err\<rparr>
                     \<or> (\<exists>err2. out = Inl err2
                            \<and> db_error e (length (trace w') - 1) = Some err2))"
    by (intro exI[of _ None] exI[of _ err] exI[of _ "ist_clock e (clock w)"]) auto
  have on: "oval None = VNull" by (simp add: oval_def)
  from A t c Inl show ?thesis unfolding on by auto
next
  case (Inr d)
  obtain b w1 where hb: "handler_body e d w = (b, w1)" by (cases "handler_body e d w")
  show ?thesis
  proof (cases b)
    case (Inl err)
    with assms Inr hb have fb: "failure_boundary e (jobId d) err w1 = (out, w')"
      by (simp add: lambda_handler_def)
    let ?F = "DbSet (oval (jobId d))
                      [(''status'', VStr ''FAILED''), (''error'', VStr err),
                       (''updatedOn_KJUSYSCommon_DateTime'', VInt (ist_clock e (clock w1)))]"
    from failure_boundary_cases[OF fb] have
      t: "trace w' = trace w1 @ [?F]"
      and c: "(out = Inr \<lparr>res_statusCode = 500, res_jobId = jobId d, res_status = ''FAILED'',
                            res_error = Some err\<rparr>
               \<and> db_error e (length (trace w1)) = None
               \<and> jobs w' = update_first (filter_matches (oval (jobId d)))
                       (set_fields [(''status'', VStr ''FAILED''), (''error'', VStr err),
                          (''updatedOn_KJUSYSCommon_DateTime'', VInt (ist_clock e (clock w1)))])
                       (jobs w1))
              \<or> (\<exists>err2. out = Inl err2 \<and> db_error e (length (trace w1)) = Some err2
                     \<and> jobs w' = jobs w1)"
      by auto
    from t have l: "trace w' \<noteq> []" "last (trace w') = ?F"
        "length (trace w') - 1 = length (trace w1)"
      by simp_all
    from c l have A: "\<exists>j err t. trace w' \<noteq> []
                 \<and> last (trace w') = DbSet (oval j)
                      [(''status'', VStr ''FAILED''), (''error'', VStr err),
                       (''updatedOn_KJUSYSCommon_DateTime'', VInt t)]
                 \<and> (out = Inr \<lparr>res_statusCode = 500, res_jobId = j, res_status = ''FAILED'',
                                res_error = Some err\<rparr>
                     \<or> (\<exists>err2. out = Inl err2
                            \<and> db_error e (length (trace w') - 1) = Some err2))"
      by (intro exI[of _ "jobId d"] exI[of _ err] exI[of _ "ist_clock e (clock w1)"]) auto
    from A t c Inr hb Inl show ?thesis by auto
  next
    case r0: (Inr r0)
    with hb have "r0 = \<lparr>res_statusCode = 200, res_jobId = jobId d, res_status = ''SUCCESS'',
                         res_error = None\<rparr>"
      by (auto dest: handler_body_success)
    with assms Inr hb r0 show ?thesis
      by (auto simp: lambda_handler_def)
  qed
qed


theorem lambda_handler_failure_boundary_witness:
  "parse_step (sample_env empty_zip validated) direct_event = Inr direct_descriptor
   \<and> handler_body (sample_env empty_zip validated) direct_descriptor world0
       = (Inl ''No Excel file found'',
          snd (handler_body (sample_env empty_zip validated) direct_descriptor world0))
   \<and> db_error (sample_env empty_zip validated)
        (length (trace (snd (handler_body (sample_env empty_zip validated) direct_descriptor
                               world0)))) = None
   \<and> fst (lambda_handler (sample_env empty_zip validated) direct_event world0)
       = Inr \<lparr>res_statusCode = 500, res_jobId = Some ''J1'', res_status = ''FAILED'',
          res_error = Some ''No Excel file found''\<rparr>"
proof -
  let ?E = "sample_env empty_zip validated"
  have p: "parse_step ?E direct_event = Inr direct_descriptor"
    by (rule direct_event_parse)
  have hb: "handler_body ?E direct_descriptor world0
       = (Inl ''No Excel file found'', snd (handler_body ?E direct_descriptor world0))"
    using empty_zip_body[of validated] by (simp add: prod_eq_iff)
  have run: "lambda_handler ?E direct_event world0
       = (fst (lambda_handler ?E direct_event world0), snd (lambda_handler ?E direct_event world0))"
    by simp
  have db: "db_error ?E n = None" for n by simp
  from lambda_handler_failure_boundary[OF run] p hb
  have "(db_error ?E (length (trace (snd (handler_body ?E direct_descriptor world0)))) = None
          \<and> fst (lambda_handler ?E direct_event world0)
              = Inr \<lparr>res_statusCode = 500, res_jobId = jobId direct_descriptor,
                     res_status = ''FAILED'', res_error = Some ''No Excel file found''\<rparr>
          \<and> jobs (snd (lambda_handler ?E direct_event world0))
              = update_first (filter_matches (oval (jobId direct_descriptor)))
                  (set_fields [(''status'', VStr ''FAILED''),
                     (''error'', VStr ''No Excel file found''),
                     (''updatedOn_KJUSYSCommon_DateTime'',
                      VInt (ist_clock ?E (clock (snd (handler_body ?E direct_descriptor world0)))))])
                  (jobs (snd (handler_body ?E direct_descriptor world0))))
         \<or> (\<exists>err2. db_error ?E (length (trace (snd (handler_body ?E direct_descriptor world0))))
                        = Some err2
               \<and> fst (lambda_handler ?E direct_event world0) = Inl err2
               \<and> jobs (snd (lambda_handler ?E direct_event world0))
                   = jobs (snd (handler_body ?E direct_descriptor world0)))"
    by blast
  then have "fst (lambda_handler ?E direct_event world0)
              = Inr \<lparr>res_statusCode = 500, res_jobId = jobId direct_descriptor,
                     res_status = ''FAILED'', res_error = Some ''No Excel file found''\<rparr>"
    unfolding db by simp
  with p hb db show ?thesis by simp
qed

text \<open>
  The claim as stated fails twice. An event of neither recognised shape makes
  \<open>parse_event\<close> raise, and the handler still issues an update on the collection. And when
  the document store raises on every call, the exception of the first update is caught, the
  update of the \<open>except\<close> clause raises in turn, and the handler returns no result.
\<close>

theorem lambda_handler_parse_failure_counterexample:
  "parse_step (sample_env empty_zip validated) empty_event = Inl ''Invalid event format''
   \<and> trace (snd (lambda_handler (sample_env empty_zip validated) empty_event world0))
       = [DbSet VNull [(''status'', VStr ''FAILED''), (''error'', VStr ''Invalid event format''),
                       (''updatedOn_KJUSYSCommon_DateTime'', VInt 1000)]]
   \<and> parse_step (broken_store_env empty_zip validated) direct_event = Inr direct_descriptor
   \<and> fst (lambda_handler (broken_store_env empty_zip validated) direct_event world0)
       = Inl ''store unavailable''
   \<and> status_writes
        (trace (snd (lambda_handler (broken_store_env empty_zip validated) direct_event world0)))
       = [''PENDING'', ''FAILED'']
   \<and> jobs (snd (lambda_handler (broken_store_env empty_zip validated) direct_event world0)) = []"
proof -
  have 1: "parse_step (sample_env empty_zip validated) empty_event = Inl ''Invalid event format''"
    by (simp add: parse_step_def parse_event_def empty_event_def)
  have 2: "trace (snd (lambda_handler (sample_env empty_zip validated) empty_event world0))
       = [DbSet VNull [(''status'', VStr ''FAILED''), (''error'', VStr ''Invalid event format''),
                       (''updatedOn_KJUSYSCommon_DateTime'', VInt 1000)]]"
    by (simp add: lambda_handler_def 1 failure_boundary_ok world0_def oval_def)
  let ?B = "broken_store_env empty_zip validated"
  have hb: "handler_body ?B direct_descriptor world0 =
       (Inl ''store unavailable'',
        world0\<lparr>clock := 1, trace := [DbUpsert (VStr ''J1'')
                [(''createdOn_KJUSYSCommon_DateTime'', VInt 1000),
                 (''type'', VStr ''ANSWER_SCRIPT_PROCESSING''),
                 (''examCode_Examination_Text'', VStr ''E''),
                 (''courseCode_Examination_Text'', VStr ''C''),
                 (''uploadedBy'', VStr ''BACKEND''),
                 (''eventSource'', VStr ''DIRECT_INVOCATION''),
                 (''status'', VStr ''PENDING''),
                 (''progress'', VInt 0)]]\<rparr>)"
    by (simp add: handler_body_def start_job_def get_ist_millis_def update_one_upsert_def
                  world0_def oval_def direct_descriptor_def)
  have run: "lambda_handler ?B direct_event world0
       = failure_boundary ?B (Some ''J1'') ''store unavailable''
           (snd (handler_body ?B direct_descriptor world0))"
    by (simp add: lambda_handler_def broken_store_parse hb)
  have 3: "fst (lambda_handler ?B direct_event world0) = Inl ''store unavailable''"
    unfolding run
    by (simp add: failure_boundary_def get_ist_millis_def update_one_set_def)
  have 4: "status_writes (trace (snd (lambda_handler ?B direct_event world0)))
       = [''PENDING'', ''FAILED'']"
    unfolding run hb
    by (simp add: failure_boundary_def get_ist_millis_def update_one_set_def world0_def)
  have 5: "jobs (snd (lambda_handler ?B direct_event world0)) = []"
    unfolding run hb
    by (simp add: failure_boundary_def get_ist_millis_def update_one_set_def world0_def)
  from 1 2 broken_store_parse 3 4 5 show ?thesis by simp
qed


section \<open>Progress within a successful run\<close>

text \<open>
  Claim C3, as amended. In a run that returns the success result, the progress values
  written are 0, then 10, then the checkpoints of the loop, then 40, and each is at least
  the one written before it. The statuses written are \<open>PENDING\<close>, \<open>UNZIPPING\<close>,
  \<open>UNZIPPED\<close> and \<open>COMPLETED\<close>, and no progress value is written after a terminal status.
\<close>

theorem progress_nondecreasing_and_frozen:
  assumes "lambda_handler e ev w = (Inr r, w')" "res_statusCode r = 200"
  shows "\<exists>ops cps. trace w' = trace w @ ops
           \<and> progress_writes ops = [0, 10] @ cps @ [40]
           \<and> sorted (progress_writes ops)
           \<and> status_writes ops = [''PENDING'', ''UNZIPPING'', ''UNZIPPED'', ''COMPLETED'']
           \<and> frozen_after_terminal ops"
proof -
  from lambda_handler_success[OF assms] obtain d where
    hb: "handler_body e d w = (Inr r, w')" by blast
  from handler_body_success_ops[OF hb] obtain pre cps t where
    p: "trace w' = trace w @ pre @ [DbSet (oval (jobId d))
                     [(''status'', VStr ''COMPLETED''),
                      (''updatedOn_KJUSYSCommon_DateTime'', VInt t)]]"
       "progress_writes pre = [0, 10] @ cps @ [40]" "sorted cps"
       "\<forall>p\<in>set cps. 10 \<le> p \<and> p \<le> 40"
       "status_writes pre = [''PENDING'', ''UNZIPPING'', ''UNZIPPED'']"
       "list_all (\<lambda>x. \<not> terminal_write x) pre"
    by blast
  let ?C = "DbSet (oval (jobId d))
                     [(''status'', VStr ''COMPLETED''),
                      (''updatedOn_KJUSYSCommon_DateTime'', VInt t)]"
  let ?ops = "pre @ [?C]"
  have 1: "trace w' = trace w @ ?ops" using p(1) by simp
  have 2: "progress_writes ?ops = [0, 10] @ cps @ [40]"
    unfolding progress_writes_append using p(2) by simp
  have 3: "sorted ([0, 10] @ cps @ [40])"
    using p(3) p(4) by (auto simp: sorted_append)
  have 4: "status_writes ?ops = [''PENDING'', ''UNZIPPING'', ''UNZIPPED'', ''COMPLETED'']"
    unfolding status_writes_append using p(5) by simp
  have 5: "frozen_after_terminal ?ops" using frozen_after_terminal_snoc[OF p(6)] .
  from 1 2 3 4 5 show ?thesis by metis
qed

theorem progress_nondecreasing_and_frozen_witness:
  "fst (lambda_handler (sample_env ten_zip validated) direct_event world0)
     = Inr \<lparr>res_statusCode = 200, res_jobId = Some ''J1'', res_status = ''SUCCESS'',
            res_error = None\<rparr>
   \<and> (\<exists>ops cps.
         trace (snd (lambda_handler (sample_env ten_zip validated) direct_event world0))
           = trace world0 @ ops
         \<and> progress_writes ops = [0, 10] @ cps @ [40]
         \<and> sorted (progress_writes ops)
         \<and> status_writes ops = [''PENDING'', ''UNZIPPING'', ''UNZIPPED'', ''COMPLETED'']
         \<and> frozen_after_terminal ops)"
proof -
  let ?run = "lambda_handler (sample_env ten_zip validated) direct_event world0"
  let ?r = "\<lparr>res_statusCode = 200, res_jobId = Some ''J1'', res_status = ''SUCCESS'',
            res_error = None\<rparr>"
  have ok: "res_statusCode ?r = 200" by simp
  have run: "?run = (Inr ?r, snd ?run)" by (simp add: prod_eq_iff ten_zip_run(1))
  from progress_nondecreasing_and_frozen[OF run ok] ten_zip_run(1) show ?thesis by simp
qed

text \<open>
  The claim as stated fails: when the tenth of ten entries is uploaded, the checkpoint
  writes 40, and the update after the loop writes 40 again.
\<close>

theorem progress_not_strictly_increasing_counterexample:
  "fst (lambda_handler (sample_env ten_zip validated) direct_event world0)
     = Inr \<lparr>res_statusCode = 200, res_jobId = Some ''J1'', res_status = ''SUCCESS'',
            res_error = None\<rparr>
   \<and> progress_writes
        (trace (snd (lambda_handler (sample_env ten_zip validated) direct_event world0)))
       = [0, 10, 40, 40]
   \<and> \<not> sorted_wrt (<) (progress_writes
        (trace (snd (lambda_handler (sample_env ten_zip validated) direct_event world0))))"
  by (simp add: ten_zip_run)

section \<open>The checkpoint of a skipped entry\<close>

text \<open>
  Claim C4 at a failing input. The archive has ten entries; the tenth is skipped as junk,
  and the \<open>continue\<close> of that branch leaves the iteration before the progress update.
  The loop uploads the PDF and the spreadsheet and writes no progress value, although the
  index 10 is a multiple of 10.
\<close>

theorem tenth_entry_skipped_no_checkpoint:
  "length (namelist junk_tenth_zip) = 10
   \<and> extract_loop (sample_env junk_tenth_zip validated) (make_frame direct_descriptor junk_tenth_zip) 0
       (namelist junk_tenth_zip) init_acc world0
   = (Inr \<lparr>pdf_files = [pdf_item (make_frame direct_descriptor junk_tenth_zip) ''a.pdf'' 1024],
           excel_file = Some (excel_item (make_frame direct_descriptor junk_tenth_zip) ''b.xlsx'' 2048),
           other_files = [],
           skipped_files = [skip_record ''.DS_Store'' ''Junk''],
           valid_files_processed = 2\<rparr>,
      world0\<lparr>objects := (objects world0)
             ((Some ''b'', Some ''Answer_Scripts_Zip_Files/E/C/unzipped/a.pdf'') := Some (replicate 1024 0),
              (Some ''b'', Some ''Answer_Scripts_Zip_Files/E/C/unzipped/b.xlsx'') := Some (replicate 2048 0)),
         trace :=
           [S3Put (Some ''b'') ''Answer_Scripts_Zip_Files/E/C/unzipped/a.pdf'' (replicate 1024 0)
              (Some ''application/pdf''),
            S3Put (Some ''b'') ''Answer_Scripts_Zip_Files/E/C/unzipped/b.xlsx'' (replicate 2048 0)
              (Some ''application/vnd.openxmlformats-officedocument.spreadsheetml.sheet'')]\<rparr>)
   \<and> progress_writes (trace (snd (extract_loop (sample_env junk_tenth_zip validated)
         (make_frame direct_descriptor junk_tenth_zip) 0 (namelist junk_tenth_zip) init_acc world0)))
       = []"
  by (simp add: junk_tenth_zip_def process_entry_def names_facts more_names_facts endswith_def
        is_valid_excel_def is_valid_pdf_def put_object_def checkpoint_def skipped_def
        sample_env_def make_frame_def direct_descriptor_def init_acc_def Let_def world0_def
        py_str_def update_one_set_def)

section \<open>One spreadsheet per job\<close>

text \<open>
  Claim C5, as amended. When the loop completes on an archive with at least two qualifying
  spreadsheets that are not junk, the spreadsheet of the manifest is the first of them in
  the order of the archive, and each of the others is recorded, in order, as skipped with
  the reason \<open>Duplicate\<close>.
\<close>

theorem first_spreadsheet_accepted_rest_duplicate:
  assumes "extract_loop e fr idx names init_acc w = (Inr a, w')"
      and "2 \<le> length (filter (qualifying_spreadsheet (zip_file fr)) names)"
  shows "excel_file a =
           Some (excel_item fr (basename (hd (filter (qualifying_spreadsheet (zip_file fr)) names)))
                  (entry_size (zip_file fr) (hd (filter (qualifying_spreadsheet (zip_file fr)) names))))
       \<and> subseq (map duplicate_record (tl (filter (qualifying_spreadsheet (zip_file fr)) names)))
            (skipped_files a)
       \<and> length (tl (filter (qualifying_spreadsheet (zip_file fr)) names))
           = length (filter (qualifying_spreadsheet (zip_file fr)) names) - 1"
proof -
  let ?qs = "filter (qualifying_spreadsheet (zip_file fr)) names"
  from assms(2) obtain q qs where qs: "?qs = q # qs" by (cases ?qs) auto
  from extract_loop_spreadsheets[OF assms(1)] qs show ?thesis
    by (auto simp: init_acc_def)
qed

theorem first_spreadsheet_accepted_rest_duplicate_witness:
  "fst (extract_loop (sample_env two_sheets_zip validated)
          (make_frame direct_descriptor two_sheets_zip) 0 (namelist two_sheets_zip) init_acc world0)
     = Inr \<lparr>pdf_files = [],
           excel_file = Some (excel_item (make_frame direct_descriptor two_sheets_zip) ''a.xlsx'' 2048),
           other_files = [],
           skipped_files = [skip_record ''b.xlsx'' ''Duplicate''],
           valid_files_processed = 1\<rparr>
   \<and> 2 \<le> length (filter (qualifying_spreadsheet
                (zip_file (make_frame direct_descriptor two_sheets_zip))) (namelist two_sheets_zip))
   \<and> subseq (map duplicate_record (tl (filter (qualifying_spreadsheet
                (zip_file (make_frame direct_descriptor two_sheets_zip))) (namelist two_sheets_zip))))
        [skip_record ''b.xlsx'' ''Duplicate'']"
proof -
  have len: "2 \<le> length (filter (qualifying_spreadsheet
                (zip_file (make_frame direct_descriptor two_sheets_zip))) (namelist two_sheets_zip))"
    by (simp add: two_sheets_qualifying)
  from first_spreadsheet_accepted_rest_duplicate[OF two_sheets_loop len] len two_sheets_loop
  show ?thesis by simp
qed


text \<open>
  The claim as stated fails: an entry with the extension \<open>.xlsx\<close> and 3000 bytes whose
  name marks it as junk is skipped with the reason \<open>Junk\<close>, not \<open>Duplicate\<close>.
\<close>

theorem junk_named_spreadsheet_counterexample:
  "list_all (\<lambda>n. endswith (lower (basename n)) ''.xlsx'' \<and> 2048 \<le> entry_size junk_sheet_zip n)
      (namelist junk_sheet_zip)
   \<and> length (namelist junk_sheet_zip) = 2
   \<and> fst (extract_loop (sample_env junk_sheet_zip validated)
            (make_frame direct_descriptor junk_sheet_zip) 0 (namelist junk_sheet_zip) init_acc world0)
       = Inr \<lparr>pdf_files = [],
             excel_file = Some (excel_item (make_frame direct_descriptor junk_sheet_zip)
                                  ''marks.xlsx'' 3000),
             other_files = [],
             skipped_files = [skip_record ''._marks.xlsx'' ''Junk''],
             valid_files_processed = 1\<rparr>
   \<and> skip_record ''._marks.xlsx'' ''Duplicate''
       \<noteq> skip_record ''._marks.xlsx'' ''Junk''"
  by (simp add: junk_sheet_zip_def process_entry_def junk_sheet_facts endswith_def entry_size_def
        is_valid_excel_def put_object_def checkpoint_def skipped_def skip_record_def
        sample_env_def make_frame_def direct_descriptor_def init_acc_def Let_def world0_def
        py_str_def update_one_set_def)

section \<open>The upload of a duplicate spreadsheet\<close>

text \<open>
  Claim C6 at a failing input. The archive has two spreadsheets of 2048 bytes. The second
  is recorded as skipped with the reason \<open>Duplicate\<close>, and it has been uploaded to its
  destination key before: the upload precedes the test of \<open>excel_file\<close>.
\<close>

theorem duplicate_spreadsheet_is_uploaded:
  "extract_loop (sample_env two_sheets_zip validated) (make_frame direct_descriptor two_sheets_zip) 0
       (namelist two_sheets_zip) init_acc world0
   = (Inr \<lparr>pdf_files = [],
           excel_file = Some (excel_item (make_frame direct_descriptor two_sheets_zip) ''a.xlsx'' 2048),
           other_files = [],
           skipped_files = [skip_record ''b.xlsx'' ''Duplicate''],
           valid_files_processed = 1\<rparr>,
      world0\<lparr>objects := (objects world0)
             ((Some ''b'', Some ''Answer_Scripts_Zip_Files/E/C/unzipped/a.xlsx'') := Some (replicate 2048 0),
              (Some ''b'', Some ''Answer_Scripts_Zip_Files/E/C/unzipped/b.xlsx'') := Some (replicate 2048 0)),
         trace :=
           [S3Put (Some ''b'') ''Answer_Scripts_Zip_Files/E/C/unzipped/a.xlsx'' (replicate 2048 0)
              (Some ''application/vnd.openxmlformats-officedocument.spreadsheetml.sheet''),
            S3Put (Some ''b'') ''Answer_Scripts_Zip_Files/E/C/unzipped/b.xlsx'' (replicate 2048 0)
              (Some ''application/vnd.openxmlformats-officedocument.spreadsheetml.sheet'')]\<rparr>)"
  by (rule two_sheets_loop)

section \<open>Timestamps\<close>

text \<open>
  Claim C7, as amended. Creating a record that does not exist stores the given fields, the
  creation timestamp among them; creating it a second time leaves the collection as it is,
  and so does a call that the store rejects. In every run of the handler, no update writes
  the creation timestamp, and every update sets the update timestamp in the same write,
  except the update that records the deletion of the archive, which sets
  \<open>originalZipDeleted\<close> and the deletion timestamp only.
\<close>

theorem created_once_updates_stamped:
  "(update_one_upsert e j f1 w = (Inr u, w1) \<longrightarrow>
      (\<not> has_job j w \<longrightarrow> find_job j (jobs w1) = Some ((''jobId'', j) # f1))
      \<and> jobs (snd (update_one_upsert e2 j f2 w1)) = jobs w1)
   \<and> (update_one_upsert e j f1 w = (Inl err, w1) \<longrightarrow> jobs w1 = jobs w)
   \<and> (\<exists>ops. trace (snd (lambda_handler e ev w)) = trace w @ ops \<and> list_all timestamps_ok ops)"
proof -
  have 1: "find_job j (jobs w1) = Some ((''jobId'', j) # f1)"
    if "update_one_upsert e j f1 w = (Inr u, w1)" "\<not> has_job j w"
    using update_one_upsert_fresh[OF that] .
  have 2: "jobs (snd (update_one_upsert e2 j f2 w1)) = jobs w1"
    if a: "update_one_upsert e j f1 w = (Inr u, w1)"
  proof -
    from update_one_upsert_cases[OF a] have w1: "w1 = stored_upsert j f1 w" by auto
    obtain r w2 where b: "update_one_upsert e2 j f2 w1 = (r, w2)"
      by (cases "update_one_upsert e2 j f2 w1")
    from update_one_upsert_cases[OF b] have "jobs w2 = jobs (stored_upsert j f2 w1) \<or> jobs w2 = jobs w1"
      by auto
    with stored_upsert_twice[of j f2 f1 w] w1 b show ?thesis by auto
  qed
  have 3: "jobs w1 = jobs w" if a: "update_one_upsert e j f1 w = (Inl err, w1)"
    using update_one_upsert_cases[OF a] by auto
  from 1 2 3 lambda_handler_timestamps_snd[of e ev w] show ?thesis by blast
qed

theorem created_once_updates_stamped_witness:
  "\<not> has_job (VStr ''J1'') world0
   \<and> update_one_upsert (sample_env ten_zip validated) (VStr ''J1'')
         [(''createdOn_KJUSYSCommon_DateTime'', VInt 1)] world0
       = (Inr (), stored_upsert (VStr ''J1'') [(''createdOn_KJUSYSCommon_DateTime'', VInt 1)] world0)
   \<and> find_job (VStr ''J1'')
        (jobs (snd (update_one_upsert (sample_env ten_zip validated) (VStr ''J1'')
           [(''createdOn_KJUSYSCommon_DateTime'', VInt 2)]
           (stored_upsert (VStr ''J1'') [(''createdOn_KJUSYSCommon_DateTime'', VInt 1)] world0))))
       = Some [(''jobId'', VStr ''J1''), (''createdOn_KJUSYSCommon_DateTime'', VInt 1)]
   \<and> (\<exists>ops. trace (snd (lambda_handler (sample_env ten_zip validated) direct_event world0))
               = trace world0 @ ops \<and> list_all timestamps_ok ops)"
proof -
  let ?E = "sample_env ten_zip validated"
  have fresh: "\<not> has_job (VStr ''J1'') world0" by (simp add: has_job_def world0_def)
  have first: "update_one_upsert ?E (VStr ''J1'')
         [(''createdOn_KJUSYSCommon_DateTime'', VInt 1)] world0
       = (Inr (), stored_upsert (VStr ''J1'') [(''createdOn_KJUSYSCommon_DateTime'', VInt 1)] world0)"
    by (simp add: update_one_upsert_ok)
  from created_once_updates_stamped[of ?E "VStr ''J1''"
         "[(''createdOn_KJUSYSCommon_DateTime'', VInt 1)]" world0 "()"
         "stored_upsert (VStr ''J1'') [(''createdOn_KJUSYSCommon_DateTime'', VInt 1)] world0"
         ?E "[(''createdOn_KJUSYSCommon_DateTime'', VInt 2)]" _ direct_event] fresh first
  show ?thesis by simp
qed


text \<open>
  The claim as stated fails: in a successful run the update issued by \<open>delete_zip_file\<close>
  does not set the update timestamp.
\<close>

theorem update_without_timestamp_counterexample:
  "fst (lambda_handler (sample_env ten_zip validated) direct_event world0)
     = Inr \<lparr>res_statusCode = 200, res_jobId = Some ''J1'', res_status = ''SUCCESS'',
            res_error = None\<rparr>
   \<and> filter (\<lambda>x. \<not> sets_updated_on x)
        (trace (snd (lambda_handler (sample_env ten_zip validated) direct_event world0)))
       = [DbSet (VStr ''J1'') [(''originalZipDeleted'', VBool True),
                               (''zipDeletedAt_KJUSYSCommon_DateTime'', VInt 1003)]]
   \<and> \<not> list_all sets_updated_on
        (trace (snd (lambda_handler (sample_env ten_zip validated) direct_event world0)))"
proof -
  let ?t = "trace (snd (lambda_handler (sample_env ten_zip validated) direct_event world0))"
  have "filter (\<lambda>x. \<not> sets_updated_on x) ?t \<noteq> []" by (simp add: ten_zip_run_unstamped)
  then have "\<not> list_all sets_updated_on ?t"
    by (simp add: filter_empty_conv list_all_iff)
  then show ?thesis by (simp add: ten_zip_run(1) ten_zip_run_unstamped)
qed

section \<open>A validation that fails\<close>

text \<open>
  Claim C8. Suppose the document store accepts every update, the trigger is normalised, the
  extraction succeeds, and the validation function returns a payload without
  \<open>errorMessage\<close>, with a status other than 200 and with an \<open>error\<close> text. Then the
  statuses written are \<open>PENDING\<close>, \<open>UNZIPPING\<close>, \<open>UNZIPPED\<close>, \<open>VALIDATION_FAILED\<close> and
  \<open>FAILED\<close>, in this order; the update to \<open>VALIDATION_FAILED\<close> carries the error text; the
  record ends with status \<open>FAILED\<close>; and the error message of the returned result contains
  the error text of the callee.
\<close>

theorem validation_failure_path:
  assumes store: "store_ok e"
      and parse: "parse_step e ev = Inr d"
      and ex: "extraction e d (snd (start_job e d w)) = (Inr (fr, a), w1)"
      and resp: "lambda_invoke e (VALIDATE_LAMBDA_NAME e) (VDoc [(''jobId'', oval (jobId d))])
                   = Responded sc resp"
      and noem: "errorMessage resp = None"
      and non200: "get_default (statusCode resp) (Some (get_default sc 0)) \<noteq> Some 200"
      and msg: "error_field resp = Some (Some msg)"
      and run: "lambda_handler e ev w = (out, w')"
  shows "\<exists>ops t doc. trace w' = trace w @ ops
           \<and> status_writes ops =
               [''PENDING'', ''UNZIPPING'', ''UNZIPPED'', ''VALIDATION_FAILED'', ''FAILED'']
           \<and> DbSet (oval (jobId d))
                 [(''status'', VStr ''VALIDATION_FAILED''),
                  (''error'', VStr (''Validation failed: '' @ msg)),
                  (''updatedOn_KJUSYSCommon_DateTime'', VInt t)] \<in> set ops
           \<and> find_job (oval (jobId d)) (jobs w') = Some doc
           \<and> map_of doc ''status'' = Some (VStr ''FAILED'')
           \<and> map_of doc ''error'' = Some (VStr (''Lambda 2 failed: '' @ msg))
           \<and> out = Inr \<lparr>res_statusCode = 500, res_jobId = jobId d, res_status = ''FAILED'',
                   res_error = Some (''Lambda 2 failed: '' @ msg)\<rparr>
           \<and> py_in msg (''Lambda 2 failed: '' @ msg)"
proof -
  let ?j = "oval (jobId d)"
  let ?err = "''Lambda 2 failed: '' @ msg"
  let ?pl = "VDoc [(''jobId'', oval (jobId d))]"
  obtain w0 where sj: "start_job e d w = (Inr (), w0)"
    using start_job_ok[OF store, of d w] by (cases "start_job e d w") simp
  from ex sj have ex0: "extraction e d w0 = (Inr (fr, a), w1)" by simp
  have inv: "fst (invoke_lambda2_sync e ?pl world0) = L2Failure (Some msg)"
    using invoke_lambda2_sync_rejected[OF resp noem non200 msg] .
  obtain w2 where vc: "validate_and_complete e d fr a w1 = (Inl ?err, w2)"
    using validate_and_complete_rejected[OF store inv, of fr a w1]
    by (cases "validate_and_complete e d fr a w1") (simp add: py_str_def)
  have hb: "handler_body e d w = (Inl ?err, w2)"
    by (simp add: handler_body_def sj ex0 vc)
  have r: "out = Inr \<lparr>res_statusCode = 500, res_jobId = jobId d, res_status = ''FAILED'',
                   res_error = Some ?err\<rparr>"
    and w': "w' = stored_set ?j
        [(''status'', VStr ''FAILED''), (''error'', VStr ?err),
         (''updatedOn_KJUSYSCommon_DateTime'', VInt (ist_clock e (clock w2)))]
        (w2\<lparr>clock := Suc (clock w2)\<rparr>)"
    using run by (simp_all add: lambda_handler_def parse hb failure_boundary_ok[OF store])
  let ?F = "DbSet ?j [(''status'', VStr ''FAILED''), (''error'', VStr ?err),
         (''updatedOn_KJUSYSCommon_DateTime'', VInt (ist_clock e (clock w2)))]"
  from start_job_cases[OF sj] obtain ops0 where
    o0: "trace w0 = trace w @ ops0"
        "status_writes ops0 = [''PENDING'', ''UNZIPPING'']"
        "has_job ?j w0"
    by auto
  from extraction_ops[OF ex0, of ?j] obtain fr1 ops1 where
    o1: "trace w1 = trace w0 @ S3Get (s3Bucket d) (s3Key d) # ops1"
        "list_all (loop_effect fr1) ops1"
        "has_job ?j w1 = has_job ?j w0"
    by blast
  from validate_and_complete_cases[OF vc, of ?j] store inv obtain ops2 t where
    o2: "trace w2 = trace w1 @ ops2"
        "status_writes ops2 = [''UNZIPPED'', ''VALIDATION_FAILED'']"
        "has_job ?j w2 = has_job ?j w1"
        "last ops2 = DbSet ?j
                 [(''status'', VStr ''VALIDATION_FAILED''),
                  (''error'', VStr (''Validation failed: '' @ msg)),
                  (''updatedOn_KJUSYSCommon_DateTime'', VInt t)]"
    by (auto simp: py_str_def)
  from o2(2) have ne: "ops2 \<noteq> []" by auto
  let ?G = "S3Get (s3Bucket d) (s3Key d)"
  let ?ops = "ops0 @ [?G] @ ops1 @ ops2 @ [?F]"
  have 1: "trace w' = trace w @ ?ops" by (simp add: w' o2(1) o1(1) o0(1))
  have 2: "status_writes ?ops =
               [''PENDING'', ''UNZIPPING'', ''UNZIPPED'', ''VALIDATION_FAILED'', ''FAILED'']"
    unfolding status_writes_append
    using o0(2) o2(2) loop_effect_status[OF o1(2)] by simp
  have 3: "DbSet ?j [(''status'', VStr ''VALIDATION_FAILED''),
                  (''error'', VStr (''Validation failed: '' @ msg)),
                  (''updatedOn_KJUSYSCommon_DateTime'', VInt t)] \<in> set ?ops"
    using last_in_set[OF ne] o2(4) by simp
  have hj: "has_job ?j (w2\<lparr>clock := Suc (clock w2)\<rparr>)"
    using o2(3) o1(3) o0(3) by simp
  from find_job_stored_set[OF hj, of "[(''status'', VStr ''FAILED''), (''error'', VStr ?err),
         (''updatedOn_KJUSYSCommon_DateTime'', VInt (ist_clock e (clock w2)))]"]
  obtain doc where doc: "find_job ?j (jobs w') = Some doc"
     "map_of doc ''status'' = Some (VStr ''FAILED'')"
     "map_of doc ''error'' = Some (VStr ?err)"
    unfolding w' by auto
  from 1 2 3 doc r py_in_suffix[of msg "''Lambda 2 failed: ''"] show ?thesis by blast
qed

theorem validation_failure_path_witness:
  "store_ok (sample_env ten_zip bad_header)
   \<and> parse_step (sample_env ten_zip bad_header) direct_event = Inr direct_descriptor
   \<and> fst (extraction (sample_env ten_zip bad_header) direct_descriptor
             (snd (start_job (sample_env ten_zip bad_header) direct_descriptor world0)))
       = Inr (make_frame direct_descriptor ten_zip,
          \<lparr>pdf_files = [pdf_item (make_frame direct_descriptor ten_zip) ''a.pdf'' 1024,
                         pdf_item (make_frame direct_descriptor ten_zip) ''c.pdf'' 1024],
           excel_file = Some (excel_item (make_frame direct_descriptor ten_zip) ''b.xlsx'' 2048),
           other_files = [], skipped_files = [], valid_files_processed = 3\<rparr>)
   \<and> lambda_invoke (sample_env ten_zip bad_header) ''ValidateExcelFunction''
         (VDoc [(''jobId'', VStr ''J1'')])
       = Responded (Some 200)
           \<lparr>statusCode = Some (Some 500), error_field = Some (Some ''bad header''),
            errorMessage = None\<rparr>
   \<and> fst (lambda_handler (sample_env ten_zip bad_header) direct_event world0)
       = Inr \<lparr>res_statusCode = 500, res_jobId = Some ''J1'', res_status = ''FAILED'',
          res_error = Some ''Lambda 2 failed: bad header''\<rparr>
   \<and> status_writes (trace (snd (lambda_handler (sample_env ten_zip bad_header) direct_event world0)))
       = [''PENDING'', ''UNZIPPING'', ''UNZIPPED'', ''VALIDATION_FAILED'', ''FAILED'']"
proof -
  let ?E = "sample_env ten_zip bad_header"
  let ?w1 = "snd (start_job ?E direct_descriptor world0)"
  let ?fr = "make_frame direct_descriptor ten_zip"
  let ?a = "\<lparr>pdf_files = [pdf_item ?fr ''a.pdf'' 1024, pdf_item ?fr ''c.pdf'' 1024],
           excel_file = Some (excel_item ?fr ''b.xlsx'' 2048),
           other_files = [], skipped_files = [], valid_files_processed = 3\<rparr>"
  let ?resp = "\<lparr>statusCode = Some (Some 500), error_field = Some (Some ''bad header''),
                errorMessage = None\<rparr>"
  have store: "store_ok ?E" by simp
  have parse: "parse_step ?E direct_event = Inr direct_descriptor" by (rule direct_event_parse)
  have ex1: "fst (extraction ?E direct_descriptor ?w1) = Inr (?fr, ?a)"
    by (rule ten_zip_extraction(1))
  then have ex: "extraction ?E direct_descriptor ?w1
                  = (Inr (?fr, ?a), snd (extraction ?E direct_descriptor ?w1))"
    by (simp add: prod_eq_iff)
  have resp: "lambda_invoke ?E (VALIDATE_LAMBDA_NAME ?E)
                (VDoc [(''jobId'', oval (jobId direct_descriptor))]) = Responded (Some 200) ?resp"
    by (simp add: bad_header_def)
  have run: "lambda_handler ?E direct_event world0
               = (fst (lambda_handler ?E direct_event world0),
                  snd (lambda_handler ?E direct_event world0))"
    by simp
  from validation_failure_path[OF store parse ex resp _ _ _ run, of "''bad header''"]
  obtain ops where
    "trace (snd (lambda_handler ?E direct_event world0)) = trace world0 @ ops"
    "status_writes ops = [''PENDING'', ''UNZIPPING'', ''UNZIPPED'', ''VALIDATION_FAILED'', ''FAILED'']"
    "fst (lambda_handler ?E direct_event world0)
       = Inr \<lparr>res_statusCode = 500, res_jobId = jobId direct_descriptor, res_status = ''FAILED'',
          res_error = Some (''Lambda 2 failed: '' @ ''bad header'')\<rparr>"
    by (auto simp: get_default_def)
  with store parse ex1 resp show ?thesis by (simp add: world0_def oval_def)
qed

section \<open>The downstream invoker\<close>

text \<open>
  Claim C9, as amended. The invoker reports success exactly when the call returns a payload
  without the key \<open>errorMessage\<close> whose \<open>statusCode\<close> (the transport's status code when the
  payload has none) is 200; the key \<open>error\<close> is not read in that case. In every other case
  it reports failure with the captured error: the text of the exception, the value of
  \<open>errorMessage\<close>, or the value of \<open>error\<close> (\<open>Unknown error\<close> when absent). It calls the
  function service exactly once.
\<close>

theorem invoke_lambda2_sync_success_iff:
  assumes "invoke_lambda2_sync e pl w = (r, w')"
  shows "((\<exists>resp. r = L2Success resp) \<longleftrightarrow>
            (\<exists>sc resp. lambda_invoke e (VALIDATE_LAMBDA_NAME e) pl = Responded sc resp
               \<and> errorMessage resp = None
               \<and> get_default (statusCode resp) (Some (get_default sc 0)) = Some 200))
       \<and> (\<forall>sc resp resp'. r = L2Success resp'
             \<and> lambda_invoke e (VALIDATE_LAMBDA_NAME e) pl = Responded sc resp
             \<longrightarrow> resp' = resp)
       \<and> ((\<nexists>resp. r = L2Success resp) \<longrightarrow>
            (\<exists>msg. r = L2Failure msg \<and>
               (case lambda_invoke e (VALIDATE_LAMBDA_NAME e) pl of
                  Raised err \<Rightarrow> msg = Some err
                | Responded sc resp \<Rightarrow>
                    (case errorMessage resp of
                       Some m \<Rightarrow> msg = m
                     | None \<Rightarrow> msg = get_default (error_field resp) (Some ''Unknown error'')))))
       \<and> trace w' = trace w @ [Invoke (VALIDATE_LAMBDA_NAME e) pl]"
  using assms
  by (auto simp: invoke_lambda2_sync_def Let_def
           split: invoke_outcome.splits option.splits if_splits)

theorem invoke_lambda2_sync_success_iff_witness:
  "invoke_lambda2_sync (sample_env empty_zip bad_header) (VDoc [(''jobId'', VStr ''J1'')]) world0
     = (L2Failure (Some ''bad header''),
        world0\<lparr>trace := [Invoke ''ValidateExcelFunction'' (VDoc [(''jobId'', VStr ''J1'')])]\<rparr>)
   \<and> (\<nexists>resp. L2Failure (Some ''bad header'') = L2Success resp)
   \<and> trace (world0\<lparr>trace := [Invoke ''ValidateExcelFunction'' (VDoc [(''jobId'', VStr ''J1'')])]\<rparr>)
       = trace world0 @ [Invoke ''ValidateExcelFunction'' (VDoc [(''jobId'', VStr ''J1'')])]"
proof -
  have run: "invoke_lambda2_sync (sample_env empty_zip bad_header)
               (VDoc [(''jobId'', VStr ''J1'')]) world0
     = (L2Failure (Some ''bad header''),
        world0\<lparr>trace := [Invoke ''ValidateExcelFunction'' (VDoc [(''jobId'', VStr ''J1'')])]\<rparr>)"
    by (simp add: invoke_lambda2_sync_def sample_env_def bad_header_def world0_def
                  get_default_def)
  from invoke_lambda2_sync_success_iff[OF run] run show ?thesis by simp
qed

text \<open>
  The claim as stated fails: a payload with status 200 and an \<open>error\<close> text is reported as
  success, with the payload as the response.
\<close>

theorem ok_with_error_counterexample:
  "lambda_invoke (sample_env empty_zip ok_with_error) ''ValidateExcelFunction''
       (VDoc [(''jobId'', VStr ''J1'')])
     = Responded (Some 200)
         \<lparr>statusCode = Some (Some 200), error_field = Some (Some ''bad header''),
          errorMessage = None\<rparr>
   \<and> fst (invoke_lambda2_sync (sample_env empty_zip ok_with_error)
            (VDoc [(''jobId'', VStr ''J1'')]) world0)
     = L2Success \<lparr>statusCode = Some (Some 200), error_field = Some (Some ''bad header''),
                  errorMessage = None\<rparr>"
  by (simp add: invoke_lambda2_sync_def sample_env_def ok_with_error_def get_default_def)

section \<open>Two PDFs with the same base name\<close>

text \<open>
  Claim C10. When the loop completes on an archive in which two accepted PDFs have the same
  base name, the manifest holds an item for each, in the order of the archive; both items
  carry the same destination key; both entries are uploaded to this key, the later after
  the earlier, and once the later entry has been processed the object under the key holds
  its bytes; and both items count in the number of PDFs.
\<close>

theorem same_basename_pdfs_share_key:
  assumes loop: "extract_loop e fr idx (xs @ n1 # ys @ n2 # zs) init_acc w = (Inr a, w')"
      and acc1: "accepted_pdf (zip_file fr) n1" and acc2: "accepted_pdf (zip_file fr) n2"
      and body1: "zread (zip_file fr) n1 = Inr body1"
      and body2: "zread (zip_file fr) n2 = Inr body2"
      and same: "basename n1 = basename n2"
  shows "\<exists>p1 p2 p3 o1 o2 o3 a2 w2.
           pdf_files a = p1 @ pdf_item fr (basename n1) (length body1)
                           # p2 @ pdf_item fr (basename n2) (length body2) # p3
         \<and> s3_key_of (pdf_item fr (basename n1) (length body1))
             = Some (VStr (unzip_prefix fr @ basename n1))
         \<and> s3_key_of (pdf_item fr (basename n2) (length body2))
             = Some (VStr (unzip_prefix fr @ basename n1))
         \<and> trace w' = trace w @ o1
               @ S3Put (bucket fr) (unzip_prefix fr @ basename n1) body1 (Some ''application/pdf'')
               # o2
               @ S3Put (bucket fr) (unzip_prefix fr @ basename n1) body2 (Some ''application/pdf'')
               # o3
         \<and> extract_loop e fr idx (xs @ n1 # ys @ [n2]) init_acc w = (Inr a2, w2)
         \<and> objects w2 (bucket fr, Some (unzip_prefix fr @ basename n1)) = Some body2
         \<and> 2 \<le> length (pdf_files a)"
proof -
  let ?k = "unzip_prefix fr @ basename n1"
  let ?i1 = "pdf_item fr (basename n1) (length body1)"
  let ?i2 = "pdf_item fr (basename n2) (length body2)"
  let ?P1 = "S3Put (bucket fr) ?k body1 (Some ''application/pdf'')"
  let ?P2 = "S3Put (bucket fr) ?k body2 (Some ''application/pdf'')"
  from extract_loop_split[OF loop] obtain ax wx where
    lx: "extract_loop e fr idx xs init_acc w = (Inr ax, wx)"
    and r1: "extract_loop e fr (idx + length xs) (n1 # ys @ n2 # zs) ax wx = (Inr a, w')"
    by blast
  from extract_loop_head[OF r1] obtain a1 w1 where
    pe1: "process_entry e fr (idx + length xs) n1 ax wx = (Inr a1, w1)"
    and r2: "extract_loop e fr (Suc (idx + length xs)) (ys @ n2 # zs) a1 w1 = (Inr a, w')"
    by blast
  from extract_loop_split[OF r2] obtain ay wy where
    ly: "extract_loop e fr (Suc (idx + length xs)) ys a1 w1 = (Inr ay, wy)"
    and r3: "extract_loop e fr (Suc (idx + length xs) + length ys) (n2 # zs) ay wy = (Inr a, w')"
    by blast
  from extract_loop_head[OF r3] obtain a2 w2 where
    pe2: "process_entry e fr (Suc (idx + length xs) + length ys) n2 ay wy = (Inr a2, w2)"
    and lz: "extract_loop e fr (Suc (Suc (idx + length xs) + length ys)) zs a2 w2 = (Inr a, w')"
    by blast
  from extract_loop_growth[OF lx] obtain p1 o1 where
    gx: "pdf_files ax = p1" "trace wx = trace w @ o1" by (auto simp: init_acc_def)
  from process_entry_accepted_pdf[OF acc1 body1 pe1] obtain q1 where
    g1: "pdf_files a1 = pdf_files ax @ [?i1]" "trace w1 = trace wx @ ?P1 # q1" by blast
  from extract_loop_growth[OF ly] obtain p2 q2 where
    gy: "pdf_files ay = pdf_files a1 @ p2" "trace wy = trace w1 @ q2" by blast
  from process_entry_accepted_pdf[OF acc2 body2 pe2] same obtain q3 where
    g2: "pdf_files a2 = pdf_files ay @ [?i2]" "trace w2 = trace wy @ ?P2 # q3"
        "objects w2 (bucket fr, Some ?k) = Some body2" by auto
  from extract_loop_growth[OF lz] obtain p3 q4 where
    gz: "pdf_files a = pdf_files a2 @ p3" "trace w' = trace w2 @ q4" by blast
  have 1: "pdf_files a = p1 @ ?i1 # p2 @ ?i2 # p3"
    using gx(1) g1(1) gy(1) g2(1) gz(1) by simp
  have 2: "s3_key_of ?i1 = Some (VStr ?k)" "s3_key_of ?i2 = Some (VStr ?k)"
    using same by (simp_all add: s3_key_of_def pdf_item_def)
  have 3: "trace w' = trace w @ o1 @ ?P1 # (q1 @ q2) @ ?P2 # (q3 @ q4)"
    using gx(2) g1(2) gy(2) g2(2) gz(2) by simp
  have 4: "extract_loop e fr idx (xs @ n1 # ys @ [n2]) init_acc w = (Inr a2, w2)"
    using lx pe1 ly pe2 by (simp add: extract_loop_append)
  have 5: "2 \<le> length (pdf_files a)" unfolding 1 by simp
  from 1 2 3 4 g2(3) 5 show ?thesis by blast
qed

theorem same_basename_pdfs_share_key_witness:
  "fst (extract_loop (sample_env same_name_zip validated)
         (make_frame direct_descriptor same_name_zip) 0 ([] @ ''x/s.pdf'' # [] @ ''y/s.pdf'' # [])
         init_acc world0)
     = Inr \<lparr>pdf_files = [pdf_item (make_frame direct_descriptor same_name_zip) ''s.pdf'' 1024,
                           pdf_item (make_frame direct_descriptor same_name_zip) ''s.pdf'' 1025],
             excel_file = None, other_files = [], skipped_files = [], valid_files_processed = 2\<rparr>
   \<and> accepted_pdf (zip_file (make_frame direct_descriptor same_name_zip)) ''x/s.pdf''
   \<and> accepted_pdf (zip_file (make_frame direct_descriptor same_name_zip)) ''y/s.pdf''
   \<and> zread (zip_file (make_frame direct_descriptor same_name_zip)) ''x/s.pdf''
       = Inr (replicate 1024 1)
   \<and> zread (zip_file (make_frame direct_descriptor same_name_zip)) ''y/s.pdf''
       = Inr (replicate 1025 2)
   \<and> basename ''x/s.pdf'' = basename ''y/s.pdf''
   \<and> objects (snd (extract_loop (sample_env same_name_zip validated)
         (make_frame direct_descriptor same_name_zip) 0 [''x/s.pdf'', ''y/s.pdf''] init_acc world0))
        (Some ''b'', Some ''Answer_Scripts_Zip_Files/E/C/unzipped/s.pdf'')
       = Some (replicate 1025 2)"
proof -
  let ?E = "sample_env same_name_zip validated"
  let ?fr = "make_frame direct_descriptor same_name_zip"
  let ?L = "extract_loop ?E ?fr 0 [''x/s.pdf'', ''y/s.pdf''] init_acc world0"
  let ?A = "\<lparr>pdf_files = [pdf_item ?fr ''s.pdf'' 1024, pdf_item ?fr ''s.pdf'' 1025],
             excel_file = None, other_files = [], skipped_files = [], valid_files_processed = 2\<rparr>"
  have loop: "extract_loop ?E ?fr 0 ([] @ ''x/s.pdf'' # [] @ ''y/s.pdf'' # []) init_acc world0
                = (Inr ?A, snd ?L)"
    using same_name_loop by (simp add: prod_eq_iff)
  have acc: "accepted_pdf (zip_file ?fr) ''x/s.pdf''" "accepted_pdf (zip_file ?fr) ''y/s.pdf''"
    by (simp_all add: same_name_accepted)
  have b1: "zread (zip_file ?fr) ''x/s.pdf'' = Inr (replicate 1024 1)"
    and b2: "zread (zip_file ?fr) ''y/s.pdf'' = Inr (replicate 1025 2)"
    by (simp_all add: same_name_zip_def)
  have same: "basename ''x/s.pdf'' = basename ''y/s.pdf''" by (simp add: same_name_basenames)
  from same_basename_pdfs_share_key[OF loop acc b1 b2 same]
  obtain a2 w2 where "extract_loop ?E ?fr 0 ([] @ ''x/s.pdf'' # [] @ [''y/s.pdf'']) init_acc world0
                        = (Inr a2, w2)"
      "objects w2 (bucket ?fr, Some (unzip_prefix ?fr @ basename ''x/s.pdf'')) = Some (replicate 1025 2)"
    by blast
  then have obj: "objects (snd ?L) (Some ''b'', Some ''Answer_Scripts_Zip_Files/E/C/unzipped/s.pdf'')
       = Some (replicate 1025 2)"
    by (simp add: same_name_basenames make_frame_def py_str_def del: extract_loop.simps)
  have c1: "fst (extract_loop ?E ?fr 0 ([] @ ''x/s.pdf'' # [] @ ''y/s.pdf'' # []) init_acc world0)
              = Inr ?A"
    by (simp only: loop fst_conv)
  from c1 acc b1 b2 same obj show ?thesis by blast
qed

end
